theory Spec2Isabelle
  imports Complex_Main "HOL-Library.Word"
begin

unbundle bit_operations_syntax

section \<open>Data model (src/types.ts and the hooks of src/App.tsx)\<close>

text \<open>
  The component \<open>App\<close> of src/App.tsx keeps four pieces of React state
  (\<open>status\<close>, \<open>messages\<close>, \<open>currentInput\<close>, \<open>currentOutput\<close>) and five
  mutable refs. All of them are fields of one record that every operation takes
  and returns. State updates are applied in program order, one after the other,
  which is what the functional updaters of the source compute.

  Times on the audio timeline (\<open>currentTime\<close>, start times, durations) are JavaScript
  numbers; they are modelled as real numbers. A JavaScript string is a list of
  code units; a \<open>char\<close> stands for a code unit below 256.
\<close>

datatype ConnectionStatus = IDLE | CONNECTING | CONNECTED | ERROR

datatype Role = User | Agent

record Message =
  msg_role :: Role
  msg_text :: string
  timestamp :: int

text \<open>The exceptions the modelled code can meet.\<close>

datatype js_error =
    TypeError
  | InvalidStateError
  | DecodeError
  | MalformedAudioError
  | NotAllowedError
  | ConnectError

text \<open>
  A statement either completes or throws; what it has written before the throw
  stays written, so both outcomes carry the state.
\<close>

datatype 's outcome = Done 's | Threw js_error 's

fun and_then :: "'s outcome \<Rightarrow> ('s \<Rightarrow> 's outcome) \<Rightarrow> 's outcome" where
  "and_then (Done s) f = f s"
| "and_then (Threw e s) f = Threw e s"

fun try_catch :: "'s outcome \<Rightarrow> (js_error \<Rightarrow> 's \<Rightarrow> 's outcome) \<Rightarrow> 's outcome" where
  "try_catch (Done s) h = Done s"
| "try_catch (Threw e s) h = h e s"

fun final :: "'s outcome \<Rightarrow> 's" where
  "final (Done s) = s"
| "final (Threw e s) = s"

fun threw :: "'s outcome \<Rightarrow> bool" where
  "threw (Done s) = False"
| "threw (Threw e s) = True"

text \<open>\<open>forEach\<close> of an array or a Set: the callback runs on each element in order.\<close>

fun forEach :: "('a \<Rightarrow> 's \<Rightarrow> 's outcome) \<Rightarrow> 'a list \<Rightarrow> 's \<Rightarrow> 's outcome" where
  "forEach f [] s = Done s"
| "forEach f (x # xs) s = and_then (f x s) (forEach f xs)"

text \<open>
  Web Audio objects. An \<open>AudioBuffer\<close> has a number of sample frames and a sample
  rate; its \<open>duration\<close> is their quotient. An \<open>AudioBufferSourceNode\<close> lives in a
  heap of nodes (a list, a node's reference being its index); the Set
  \<open>audioSourcesRef\<close> holds references, in insertion order.
\<close>

record AudioBuffer =
  buf_length :: nat
  sampleRate :: nat

definition duration :: "AudioBuffer \<Rightarrow> real" where
  "duration b = real (buf_length b) / real (sampleRate b)"

datatype Playback = Scheduled | Finished | Stopped

record AudioBufferSourceNode =
  buffer :: AudioBuffer
  startTime :: real
  playback :: Playback

type_synonym AudioContext = nat

record MediaStream =
  tracks :: "nat list"

text \<open>Releases of resources that live outside the component, in the order made.\<close>

datatype release = SessionClose nat | TrackStop nat | ContextClose AudioContext

record App =
  status :: ConnectionStatus
  messages :: "Message list"
  currentInput :: string
  currentOutput :: string
  nextStartTimeRef :: real
  audioContextsRef :: "(AudioContext \<times> AudioContext) option"
  audioSourcesRef :: "nat list"
  sessionRef :: "nat option"
  streamRef :: "MediaStream option"
  nodes :: "AudioBufferSourceNode list"
  released :: "release list"

definition initial :: App where
  "initial = \<lparr> status = IDLE, messages = [], currentInput = [], currentOutput = [],
     nextStartTimeRef = 0, audioContextsRef = None, audioSourcesRef = [],
     sessionRef = None, streamRef = None, nodes = [], released = [] \<rparr>"

section \<open>The transcript log: \<open>addMessage\<close> (src/App.tsx, lines 31-34)\<close>

text \<open>
  \<open>String.prototype.trim\<close> removes white space at both ends; among the code units
  below 256 these are TAB, LF, VT, FF, CR, SP and NBSP.
\<close>

definition is_white_space :: "char \<Rightarrow> bool" where
  "is_white_space c = (of_char c \<in> {9, 10, 11, 12, 13, 32, 160 :: nat})"

definition trim :: "string \<Rightarrow> string" where
  "trim t = rev (dropWhile is_white_space (rev (dropWhile is_white_space t)))"

text \<open>\<open>xs.slice(-n)\<close>: the last \<open>n\<close> elements, all of them when there are fewer.\<close>

definition slice_last :: "nat \<Rightarrow> 'a list \<Rightarrow> 'a list" where
  "slice_last n xs = drop (length xs - n) xs"

text \<open>
  \<open>addMessage role text\<close>, as the updater it hands to \<open>setMessages\<close>; \<open>now\<close> is the
  value of \<open>new Date()\<close>.
\<close>

definition addMessage :: "Role \<Rightarrow> string \<Rightarrow> int \<Rightarrow> Message list \<Rightarrow> Message list" where
  "addMessage r t now prev =
     (if trim t = [] then prev
      else slice_last 10 prev @ [\<lparr> msg_role = r, msg_text = t, timestamp = now \<rparr>])"

text \<open>Appending a sequence of entries, one call of \<open>addMessage\<close> each.\<close>

fun addMessages :: "(Role \<times> string \<times> int) list \<Rightarrow> Message list \<Rightarrow> Message list" where
  "addMessages [] prev = prev"
| "addMessages ((r, t, now) # es) prev = addMessages es (addMessage r t now prev)"

section \<open>The playback scheduler\<close>

subsection \<open>\<open>stopAllAudio\<close> (src/App.tsx, lines 36-42)\<close>

text \<open>
  \<open>source.stop()\<close>. It throws on a source that has already finished by itself (the
  race the source's \<open>try\<close>/\<open>catch\<close> is there for), and on a reference to no node.
\<close>

definition source_stop :: "nat \<Rightarrow> App \<Rightarrow> App outcome" where
  "source_stop i s =
     (if i < length (nodes s) then
        (if playback (nodes s ! i) = Finished then Threw InvalidStateError s
         else Done (s\<lparr> nodes := (nodes s)[i := (nodes s ! i)\<lparr> playback := Stopped \<rparr>] \<rparr>))
      else Threw TypeError s)"

definition stopAllAudio :: "App \<Rightarrow> App outcome" where
  "stopAllAudio s =
     and_then
       (forEach (\<lambda>source st. try_catch (source_stop source st) (\<lambda>e st'. Done st'))
          (audioSourcesRef s) s)
       (\<lambda>s1. Done (s1\<lparr> audioSourcesRef := [], nextStartTimeRef := 0 \<rparr>))"

subsection \<open>Scheduling one decoded buffer (src/App.tsx, lines 76-85)\<close>

text \<open>\<open>Set.prototype.add\<close> and \<open>delete\<close> on the insertion-ordered Set of references.\<close>

definition set_add :: "nat \<Rightarrow> nat list \<Rightarrow> nat list" where
  "set_add x xs = (if x \<in> set xs then xs else xs @ [x])"

definition set_delete :: "nat \<Rightarrow> nat list \<Rightarrow> nat list" where
  "set_delete x xs = removeAll x xs"

text \<open>
  \<open>createBufferSource\<close>, \<open>source.buffer = audioBuffer\<close>, the start at
  \<open>Math.max(nextStartTimeRef.current, outputCtx.currentTime)\<close>, the advance of the
  cursor and the registration in the Set. \<open>currentTime\<close> is the reading of the output
  context's clock at that moment.
\<close>

definition enqueue :: "real \<Rightarrow> AudioBuffer \<Rightarrow> App \<Rightarrow> App" where
  "enqueue currentTime audioBuffer s =
     (let source = length (nodes s);
          start = max (nextStartTimeRef s) currentTime
      in s\<lparr> nodes := nodes s @
               [\<lparr> buffer = audioBuffer, startTime = start, playback = Scheduled \<rparr>],
            nextStartTimeRef := start + duration audioBuffer,
            audioSourcesRef := set_add source (audioSourcesRef s) \<rparr>)"

text \<open>
  A source finishing by itself, and the \<open>onended\<close> callback that then removes it
  from the Set; the callback also fires after a forced stop.
\<close>

definition source_finished :: "nat \<Rightarrow> App \<Rightarrow> App" where
  "source_finished i s =
     (if i < length (nodes s) \<and> playback (nodes s ! i) = Scheduled
      then s\<lparr> nodes := (nodes s)[i := (nodes s ! i)\<lparr> playback := Finished \<rparr>] \<rparr>
      else s)"

definition onended :: "nat \<Rightarrow> App \<Rightarrow> App" where
  "onended i s = s\<lparr> audioSourcesRef := set_delete i (audioSourcesRef s) \<rparr>"

text \<open>Running a sequence of enqueue calls, each with its own clock reading.\<close>

fun enqueue_all :: "(real \<times> AudioBuffer) list \<Rightarrow> App \<Rightarrow> App" where
  "enqueue_all [] s = s"
| "enqueue_all ((t, b) # cs) s = enqueue_all cs (enqueue t b s)"

section \<open>The inbound-message handler: \<open>handleMessage\<close> (src/App.tsx, lines 44-87)\<close>

text \<open>
  The fields of a \<open>LiveServerMessage\<close> that the handler reads. An optional field is
  an \<open>option\<close>; an optional flag that is only tested for truth is a \<open>bool\<close>.
\<close>

record Transcription =
  transcription_text :: "string option"

record InlineData =
  inline_data :: "string option"

record Part =
  inlineData :: "InlineData option"

record Content =
  parts :: "Part list option"

record LiveServerContent =
  inputTranscription :: "Transcription option"
  outputTranscription :: "Transcription option"
  turnComplete :: bool
  interrupted :: bool
  modelTurn :: "Content option"

record LiveServerMessage =
  serverContent :: "LiveServerContent option"

text \<open>What the handler reads from outside: \<open>new Date()\<close> and \<open>outputCtx.currentTime\<close>.\<close>

record Env =
  env_date :: int
  env_currentTime :: real

text \<open>\<open>prev + text\<close> where \<open>text\<close> may be \<open>undefined\<close>.\<close>

definition js_concat :: "string \<Rightarrow> string option \<Rightarrow> string" where
  "js_concat prev t = prev @ (case t of None \<Rightarrow> ''undefined'' | Some x \<Rightarrow> x)"

text \<open>Lines 46-51: accumulation of the partial transcriptions.\<close>

definition transcriptions :: "LiveServerMessage \<Rightarrow> App \<Rightarrow> App" where
  "transcriptions m s =
     (let s1 = (case Option.bind (serverContent m) inputTranscription of
                  Some tr \<Rightarrow> s\<lparr> currentInput := js_concat (currentInput s) (transcription_text tr) \<rparr>
                | None \<Rightarrow> s)
      in (case Option.bind (serverContent m) outputTranscription of
            Some tr \<Rightarrow> s1\<lparr> currentOutput := js_concat (currentOutput s1) (transcription_text tr) \<rparr>
          | None \<Rightarrow> s1))"

text \<open>Lines 53-63: the flush on \<open>turnComplete\<close>.\<close>

definition turn_complete :: "int \<Rightarrow> LiveServerMessage \<Rightarrow> App \<Rightarrow> App" where
  "turn_complete now m s =
     (if (case serverContent m of None \<Rightarrow> False | Some c \<Rightarrow> turnComplete c) then
        (let s1 = s\<lparr> messages := (if currentInput s \<noteq> []
                                     then addMessage User (currentInput s) now (messages s)
                                     else messages s),
                       currentInput := [] \<rparr>
         in s1\<lparr> messages := (if currentOutput s1 \<noteq> []
                               then addMessage Agent (currentOutput s1) now (messages s1)
                               else messages s1),
                 currentOutput := [] \<rparr>)
      else s)"

text \<open>Lines 66-68: the interruption.\<close>

definition interruption :: "LiveServerMessage \<Rightarrow> App \<Rightarrow> App outcome" where
  "interruption m s =
     (if (case serverContent m of None \<Rightarrow> False | Some c \<Rightarrow> interrupted c)
      then stopAllAudio s else Done s)"

text \<open>
  Line 71: \<open>message.serverContent?.modelTurn?.parts[0]?.inlineData?.data\<close>. The index
  \<open>parts[0]\<close> is not guarded: a model turn without \<open>parts\<close> throws.
\<close>

definition audioData :: "LiveServerMessage \<Rightarrow> js_error + string option" where
  "audioData m =
     (case serverContent m of
        None \<Rightarrow> Inr None
      | Some c \<Rightarrow>
          (case modelTurn c of
             None \<Rightarrow> Inr None
           | Some t \<Rightarrow>
               (case parts t of
                  None \<Rightarrow> Inl TypeError
                | Some [] \<Rightarrow> Inr None
                | Some (p # ps) \<Rightarrow>
                    (case inlineData p of
                       None \<Rightarrow> Inr None
                     | Some d \<Rightarrow> Inr (inline_data d)))))"

text \<open>
  Lines 71-86: the audio output. \<open>decodeAudioData(decode(audioData), outputCtx, 24000, 1)\<close>
  is imported from \<open>./utils/audio-utils\<close>; the handler takes it as the parameter
  \<open>decodeAudio\<close>, which gives a buffer or throws. A throw rejects the handler's
  promise and leaves what was written before. The handler is suspended once, at the
  \<open>await\<close> of line 74; the decoding waits for nothing, so the rest of the handler
  runs before any other event is handled, and the handler is one step.
\<close>

definition audio_output ::
  "(string \<Rightarrow> js_error + AudioBuffer) \<Rightarrow> real \<Rightarrow> LiveServerMessage \<Rightarrow> App \<Rightarrow> App outcome" where
  "audio_output decodeAudio currentTime m s =
     (case audioData m of
        Inl e \<Rightarrow> Threw e s
      | Inr None \<Rightarrow> Done s
      | Inr (Some a) \<Rightarrow>
          (if a \<noteq> [] \<and> audioContextsRef s \<noteq> None then
             (case decodeAudio a of
                Inl e \<Rightarrow> Threw e s
              | Inr audioBuffer \<Rightarrow> Done (enqueue currentTime audioBuffer s))
           else Done s))"

definition handleMessage ::
  "(string \<Rightarrow> js_error + AudioBuffer) \<Rightarrow> Env \<Rightarrow> LiveServerMessage \<Rightarrow> App \<Rightarrow> App outcome" where
  "handleMessage decodeAudio env m s =
     and_then
       (and_then (Done (turn_complete (env_date env) m (transcriptions m s))) (interruption m))
       (audio_output decodeAudio (env_currentTime env) m)"

section \<open>The session: \<open>startSession\<close> and \<open>stopSession\<close> (src/App.tsx, lines 89-168)\<close>

text \<open>
  The method calls of lines 154, 158, 162 and 163. A call through a ref that holds
  \<open>null\<close> throws a \<open>TypeError\<close>.
\<close>

definition session_close :: "App \<Rightarrow> App outcome" where
  "session_close s =
     (case sessionRef s of
        None \<Rightarrow> Threw TypeError s
      | Some h \<Rightarrow> Done (s\<lparr> released := released s @ [SessionClose h] \<rparr>))"

definition stop_tracks :: "App \<Rightarrow> App outcome" where
  "stop_tracks s =
     (case streamRef s of
        None \<Rightarrow> Threw TypeError s
      | Some stream \<Rightarrow>
          forEach (\<lambda>track st. Done (st\<lparr> released := released st @ [TrackStop track] \<rparr>))
            (tracks stream) s)"

definition input_close :: "App \<Rightarrow> App outcome" where
  "input_close s =
     (case audioContextsRef s of
        None \<Rightarrow> Threw TypeError s
      | Some (inputCtx, outputCtx) \<Rightarrow> Done (s\<lparr> released := released s @ [ContextClose inputCtx] \<rparr>))"

definition output_close :: "App \<Rightarrow> App outcome" where
  "output_close s =
     (case audioContextsRef s of
        None \<Rightarrow> Threw TypeError s
      | Some (inputCtx, outputCtx) \<Rightarrow> Done (s\<lparr> released := released s @ [ContextClose outputCtx] \<rparr>))"

definition stopSession :: "App \<Rightarrow> App outcome" where
  "stopSession s =
     and_then
       (if sessionRef s \<noteq> None
        then and_then (session_close s) (\<lambda>s1. Done (s1\<lparr> sessionRef := None \<rparr>))
        else Done s)
       (\<lambda>s2. and_then
          (if streamRef s2 \<noteq> None
           then and_then (stop_tracks s2) (\<lambda>s3. Done (s3\<lparr> streamRef := None \<rparr>))
           else Done s2)
          (\<lambda>s4. and_then
             (if audioContextsRef s4 \<noteq> None
              then and_then (input_close s4)
                     (\<lambda>s5. and_then (output_close s5)
                        (\<lambda>s6. Done (s6\<lparr> audioContextsRef := None \<rparr>)))
              else Done s4)
             (\<lambda>s7. and_then (stopAllAudio s7) (\<lambda>s8. Done (s8\<lparr> status := IDLE \<rparr>)))))"

text \<open>
  \<open>startSession\<close> is suspended at each \<open>await\<close>; its three runs are separate steps.
  Line 91 up to the first \<open>await\<close>; lines 96-100 once the microphone stream is there;
  line 144 once the session promise resolves; lines 146-149 when anything inside
  the \<open>try\<close> throws or rejects.
\<close>

definition startSession_begin :: "App \<Rightarrow> App" where
  "startSession_begin s = s\<lparr> status := CONNECTING \<rparr>"

definition startSession_stream :: "MediaStream \<Rightarrow> AudioContext \<Rightarrow> AudioContext \<Rightarrow> App \<Rightarrow> App" where
  "startSession_stream stream inputCtx outputCtx s =
     s\<lparr> streamRef := Some stream, audioContextsRef := Some (inputCtx, outputCtx) \<rparr>"

definition startSession_session :: "nat \<Rightarrow> App \<Rightarrow> App" where
  "startSession_session session s = s\<lparr> sessionRef := Some session \<rparr>"

definition startSession_catch :: "App \<Rightarrow> App" where
  "startSession_catch s = s\<lparr> status := ERROR \<rparr>"

text \<open>The callbacks handed to \<open>ai.live.connect\<close> (lines 114-140).\<close>

definition onopen :: "App \<Rightarrow> App" where
  "onopen s = s\<lparr> status := CONNECTED \<rparr>"

definition onerror :: "App \<Rightarrow> App" where
  "onerror s = s\<lparr> status := ERROR \<rparr>"

definition onclose :: "App \<Rightarrow> App outcome" where
  "onclose s = stopSession (s\<lparr> status := IDLE \<rparr>)"

text \<open>
  Everything that can happen to the component: the two buttons, the continuations of
  \<open>startSession\<close>, the service's callbacks, and the audio sources' own events. The
  buttons are rendered by status (lines 191, 213 and 222): \<open>Start Consultation\<close> in
  \<open>IDLE\<close>, \<open>Retry Connection\<close> in \<open>ERROR\<close>, \<open>End Call\<close> in \<open>CONNECTED\<close>.
\<close>

datatype event =
    StartClicked
  | StreamGranted MediaStream AudioContext AudioContext
  | SessionResolved nat
  | StartFailed js_error
  | OnOpen
  | OnMessage Env LiveServerMessage
  | OnError
  | OnClose
  | EndCallClicked
  | SourceFinished nat
  | OnEnded nat

fun enabled :: "event \<Rightarrow> App \<Rightarrow> bool" where
  "enabled StartClicked s = (status s = IDLE \<or> status s = ERROR)"
| "enabled EndCallClicked s = (status s = CONNECTED)"
| "enabled e s = True"

fun step :: "(string \<Rightarrow> js_error + AudioBuffer) \<Rightarrow> event \<Rightarrow> App \<Rightarrow> App outcome" where
  "step dec StartClicked s = Done (startSession_begin s)"
| "step dec (StreamGranted stream inputCtx outputCtx) s =
     Done (startSession_stream stream inputCtx outputCtx s)"
| "step dec (SessionResolved session) s = Done (startSession_session session s)"
| "step dec (StartFailed e) s = Done (startSession_catch s)"
| "step dec OnOpen s = Done (onopen s)"
| "step dec (OnMessage env m) s = handleMessage dec env m s"
| "step dec OnError s = Done (onerror s)"
| "step dec OnClose s = onclose s"
| "step dec EndCallClicked s = stopSession s"
| "step dec (SourceFinished i) s = Done (source_finished i s)"
| "step dec (OnEnded i) s = Done (onended i s)"

text \<open>A run: each event acts on the state the previous one left, thrown or not.\<close>

fun run :: "(string \<Rightarrow> js_error + AudioBuffer) \<Rightarrow> event list \<Rightarrow> App \<Rightarrow> App" where
  "run dec [] s = s"
| "run dec (e # es) s = run dec es (final (step dec e s))"

section \<open>The PCM codec (\<open>./utils/audio-utils\<close>, specification section 4.1)\<close>

text \<open>
  \<open>createPcmBlob\<close>, \<open>encode\<close>, \<open>decode\<close> and \<open>decodeAudioData\<close> are imported by
  src/App.tsx from \<open>./utils/audio-utils\<close>. The definitions of this section follow
  section 4.1 of the specification. Samples are 32-bit floats in the source; every
  operation below (clamping, a product with a 16-bit factor, truncation, division
  by a power of two) is exact on them, so samples are modelled as real numbers.
\<close>

type_synonym byte = "8 word"

record WireBlob =
  wire_data :: string
  mimeType :: string

text \<open>
  Modelled from the spec: the alphabet of the "base64-style text envelope"
  (section 4.1); \<open>b64_char\<close> maps a 6-bit value to its character and \<open>b64_index\<close>
  back, \<open>=\<close> being the padding.
\<close>

definition b64_char :: "nat \<Rightarrow> char" where
  "b64_char i =
     (if i < 26 then char_of (65 + i)
      else if i < 52 then char_of (71 + i)
      else if i < 62 then char_of (i - 4)
      else if i = 62 then CHR ''+'' else CHR ''/'')"

definition b64_index :: "char \<Rightarrow> nat option" where
  "b64_index c =
     (let n = (of_char c :: nat) in
      if 65 \<le> n \<and> n \<le> 90 then Some (n - 65)
      else if 97 \<le> n \<and> n \<le> 122 then Some (n - 71)
      else if 48 \<le> n \<and> n \<le> 57 then Some (n + 4)
      else if n = 43 then Some 62
      else if n = 47 then Some 63
      else None)"

text \<open>
  Modelled from the spec: \<open>encode\<close>, the text envelope of raw bytes that
  \<open>encodeFrame\<close> wraps its result in (section 4.1): three bytes become four
  characters, a last group of one or two bytes is padded.
\<close>

fun encode :: "byte list \<Rightarrow> string" where
  "encode (a # b # c # rest) =
     b64_char (unat a div 4) #
     b64_char (unat a mod 4 * 16 + unat b div 16) #
     b64_char (unat b mod 16 * 4 + unat c div 64) #
     b64_char (unat c mod 64) # encode rest"
| "encode [a, b] =
     [b64_char (unat a div 4),
      b64_char (unat a mod 4 * 16 + unat b div 16),
      b64_char (unat b mod 16 * 4), CHR ''='']"
| "encode [a] =
     [b64_char (unat a div 4), b64_char (unat a mod 4 * 16), CHR ''='', CHR ''='']"
| "encode [] = []"

text \<open>
  Modelled from the spec: \<open>decodeBlob\<close>, "inverse text-envelope decode to raw bytes;
  fails with \<open>DecodeError\<close> if the input is not validly encoded" (section 4.1).
\<close>

fun decodeBlob :: "string \<Rightarrow> js_error + byte list" where
  "decodeBlob [] = Inr []"
| "decodeBlob (c1 # c2 # c3 # c4 # rest) =
     (case (b64_index c1, b64_index c2) of
        (Some i1, Some i2) \<Rightarrow>
          (if c3 = CHR ''='' \<and> c4 = CHR ''='' \<and> rest = [] then
             Inr [of_nat (i1 * 4 + i2 div 16)]
           else
             (case b64_index c3 of
                None \<Rightarrow> Inl DecodeError
              | Some i3 \<Rightarrow>
                  (if c4 = CHR ''='' \<and> rest = [] then
                     Inr [of_nat (i1 * 4 + i2 div 16), of_nat (i2 mod 16 * 16 + i3 div 4)]
                   else
                     (case b64_index c4 of
                        None \<Rightarrow> Inl DecodeError
                      | Some i4 \<Rightarrow>
                          (case decodeBlob rest of
                             Inl e \<Rightarrow> Inl e
                           | Inr bs \<Rightarrow>
                               Inr (of_nat (i1 * 4 + i2 div 16) #
                                    of_nat (i2 mod 16 * 16 + i3 div 4) #
                                    of_nat (i3 mod 4 * 64 + i4) # bs))))))
      | _ \<Rightarrow> Inl DecodeError)"
| "decodeBlob _ = Inl DecodeError"

text \<open>
  Modelled from the spec: the sample conversion of \<open>encodeFrame\<close>, which "clamps each
  sample to [-1, 1], scales to a 16-bit signed integer range" (section 4.1). The
  specification names the range but not the factor: \<open>kneg\<close> scales the negative
  samples and \<open>kpos\<close> the others. The store into a 16-bit integer array truncates
  towards zero and wraps modulo \<open>2 ^ 16\<close>.
\<close>

definition clamp :: "real \<Rightarrow> real" where
  "clamp x = max (- 1) (min 1 x)"

definition js_trunc :: "real \<Rightarrow> int" where
  "js_trunc x = (if 0 \<le> x then \<lfloor>x\<rfloor> else \<lceil>x\<rceil>)"

definition to_int16 :: "real \<Rightarrow> real \<Rightarrow> real \<Rightarrow> 16 word" where
  "to_int16 kneg kpos x =
     (let c = clamp x in word_of_int (js_trunc (if c < 0 then c * kneg else c * kpos)))"

text \<open>Modelled from the spec: "serializes little-endian" (section 4.1), and the way back.\<close>

definition le_bytes :: "16 word \<Rightarrow> byte list" where
  "le_bytes w = [ucast w, ucast (drop_bit 8 w)]"

definition int16_le :: "byte \<Rightarrow> byte \<Rightarrow> 16 word" where
  "int16_le lo hi = push_bit 8 (ucast hi) OR ucast lo"

text \<open>
  Modelled from the spec: \<open>encodeFrame\<close>, the whole of the encoding, "tagged as 16 kHz
  raw PCM audio" (section 4.1).
\<close>

definition encodeFrame :: "real \<Rightarrow> real \<Rightarrow> real list \<Rightarrow> WireBlob" where
  "encodeFrame kneg kpos samples =
     \<lparr> wire_data = encode (concat (map (\<lambda>x. le_bytes (to_int16 kneg kpos x)) samples)),
       mimeType = ''audio/pcm;rate=16000'' \<rparr>"

text \<open>
  Modelled from the spec: \<open>bytesToFloatSamples\<close>, which "reinterprets raw little-endian
  16-bit signed integers as normalized floats (divide by 32768)"; "the trailing odd
  byte is ignored" (section 4.1).
\<close>

fun bytesToFloatSamples :: "byte list \<Rightarrow> real list" where
  "bytesToFloatSamples (lo # hi # rest) =
     real_of_int (sint (int16_le lo hi)) / 32768 # bytesToFloatSamples rest"
| "bytesToFloatSamples _ = []"

text \<open>
  Modelled from the spec: the decoding of a blob back to samples, \<open>decodeBlob\<close>
  followed by \<open>bytesToFloatSamples\<close> (section 4.1; the \<open>decode\<close> of section 8).
\<close>

definition decodeFrame :: "WireBlob \<Rightarrow> js_error + real list" where
  "decodeFrame blob =
     (case decodeBlob (wire_data blob) of
        Inl e \<Rightarrow> Inl e
      | Inr bytes \<Rightarrow> Inr (bytesToFloatSamples bytes))"

section \<open>Auxiliary functions of the proofs\<close>

text \<open>
  What \<open>stopAllAudio\<close> leaves in the heap of nodes: each referenced node that has not
  finished by itself is stopped, the others are as they were.
\<close>

fun stopped_nodes :: "nat list \<Rightarrow> AudioBufferSourceNode list \<Rightarrow> AudioBufferSourceNode list" where
  "stopped_nodes [] ns = ns"
| "stopped_nodes (i # is) ns =
     stopped_nodes is
       (if i < length ns \<and> playback (ns ! i) \<noteq> Finished
        then ns[i := (ns ! i)\<lparr> playback := Stopped \<rparr>] else ns)"

text \<open>
  What a sequence of enqueue calls appends to the heap of nodes, from the cursor
  \<open>c\<close> on.
\<close>

fun schedule :: "(real \<times> AudioBuffer) list \<Rightarrow> real \<Rightarrow> AudioBufferSourceNode list" where
  "schedule [] c = []"
| "schedule ((t, b) # cs) c =
     \<lparr> buffer = b, startTime = max c t, playback = Scheduled \<rparr> #
     schedule cs (max c t + duration b)"

text \<open>The events whose handler runs \<open>stopAllAudio\<close> (lines 67, 139 and 166).\<close>

fun invokes_stopAll :: "event \<Rightarrow> bool" where
  "invokes_stopAll (OnMessage env m) =
     (case serverContent m of None \<Rightarrow> False | Some c \<Rightarrow> interrupted c)"
| "invokes_stopAll OnClose = True"
| "invokes_stopAll EndCallClicked = True"
| "invokes_stopAll e = False"

section \<open>Example inputs\<close>

text \<open>
  Inputs of the instances below: a chunk of \<open>n\<close> sample frames at 24 kHz; three
  chunks of 0.5 s, 0.3 s and 0.2 s with the clock readings at which they are
  enqueued; a connected component that has scheduled them; two decode helpers, one
  that throws and one that gives half a second of audio; messages with one signal
  each, and one with a fragment, both signals and an audio chunk.
\<close>

definition chunk :: "nat \<Rightarrow> AudioBuffer" where
  "chunk n = \<lparr> buf_length = n, sampleRate = 24000 \<rparr>"

definition three_chunks :: "(real \<times> AudioBuffer) list" where
  "three_chunks = [(1, chunk 12000), (11 / 10, chunk 7200), (6 / 5, chunk 4800)]"

definition playing :: App where
  "playing = enqueue_all three_chunks
     (initial\<lparr> status := CONNECTED, audioContextsRef := Some (1, 2) \<rparr>)"

definition decode_fails :: "string \<Rightarrow> js_error + AudioBuffer" where
  "decode_fails a = Inl DecodeError"

definition decode_half_second :: "string \<Rightarrow> js_error + AudioBuffer" where
  "decode_half_second a = Inr (chunk 12000)"

definition no_content :: LiveServerContent where
  "no_content = \<lparr> inputTranscription = None, outputTranscription = None,
     turnComplete = False, interrupted = False, modelTurn = None \<rparr>"

definition audio_turn :: Content where
  "audio_turn = \<lparr> parts = Some [\<lparr> inlineData = Some \<lparr> inline_data = Some ''AAAA'' \<rparr> \<rparr>] \<rparr>"

definition turn_complete_message :: LiveServerMessage where
  "turn_complete_message = \<lparr> serverContent = Some (no_content\<lparr> turnComplete := True \<rparr>) \<rparr>"

definition interruption_message :: LiveServerMessage where
  "interruption_message = \<lparr> serverContent = Some (no_content\<lparr> interrupted := True \<rparr>) \<rparr>"

definition audio_message :: LiveServerMessage where
  "audio_message = \<lparr> serverContent = Some (no_content\<lparr> modelTurn := Some audio_turn \<rparr>) \<rparr>"

definition combined_content :: LiveServerContent where
  "combined_content =
     \<lparr> inputTranscription = Some \<lparr> transcription_text = Some ''hi'' \<rparr>,
       outputTranscription = None, turnComplete = True, interrupted = True,
       modelTurn = Some audio_turn \<rparr>"

definition combined_message :: LiveServerMessage where
  "combined_message = \<lparr> serverContent = Some combined_content \<rparr>"

lemmas example_defs =
  chunk_def three_chunks_def playing_def decode_fails_def decode_half_second_def
  no_content_def audio_turn_def turn_complete_message_def interruption_message_def
  audio_message_def combined_content_def combined_message_def

lemmas handler_defs =
  handleMessage_def transcriptions_def turn_complete_def interruption_def stopAllAudio_def
  source_stop_def audio_output_def audioData_def enqueue_def set_add_def duration_def
  initial_def Let_def addMessage_def trim_def is_white_space_def js_concat_def slice_last_def

section \<open>Properties of the transcript log\<close>

lemma all_dropWhile: "(\<forall>x \<in> set (dropWhile P xs). P x) \<longleftrightarrow> (\<forall>x \<in> set xs. P x)"
  by (induction xs) auto

lemma trim_Nil_iff: "trim t = [] \<longleftrightarrow> (\<forall>c \<in> set t. is_white_space c)"
  by (simp add: trim_def dropWhile_eq_Nil_conv all_dropWhile)

lemma length_slice_last: "length (slice_last n xs) = min n (length xs)"
  by (simp add: slice_last_def)

lemma length_addMessage:
  "length (addMessage r t now prev) =
     (if trim t = [] then length prev else Suc (min 10 (length prev)))"
  by (simp add: addMessage_def length_slice_last)

text \<open>
  C1. The transcript log is capped at the most recent 10 entries: after 12 entries
  have been appended the first 2 are absent, entries 3 to 12 remain in order, and
  the log never holds more than 10 entries. The source takes \<open>prev.slice(-10)\<close>
  before it appends, so the log holds 11 entries from the eleventh append on: on
  twelve appends to an empty log only the first entry is absent, entries 2 to 12
  remain in order, and the length is 11.
\<close>

theorem addMessage_twelve_entries:
  "map msg_text (addMessages (map (\<lambda>t. (User, t, 0))
       [''e1'', ''e2'', ''e3'', ''e4'', ''e5'', ''e6'', ''e7'', ''e8'', ''e9'', ''e10'',
        ''e11'', ''e12'']) [])
     = [''e2'', ''e3'', ''e4'', ''e5'', ''e6'', ''e7'', ''e8'', ''e9'', ''e10'', ''e11'', ''e12'']
   \<and> length (addMessages (map (\<lambda>t. (User, t, 0))
       [''e1'', ''e2'', ''e3'', ''e4'', ''e5'', ''e6'', ''e7'', ''e8'', ''e9'', ''e10'',
        ''e11'', ''e12'']) []) = 11"
  by (simp add: addMessage_def trim_def is_white_space_def slice_last_def)

section \<open>Properties of the playback scheduler\<close>

lemma forEach_stop:
  "forEach (\<lambda>source st. try_catch (source_stop source st) (\<lambda>e st'. Done st')) xs s =
     Done (s\<lparr> nodes := stopped_nodes xs (nodes s) \<rparr>)"
  by (induction xs arbitrary: s) (simp_all add: source_stop_def)

lemma stopAllAudio_eq:
  "stopAllAudio s =
     Done (s\<lparr> nodes := stopped_nodes (audioSourcesRef s) (nodes s),
             audioSourcesRef := [], nextStartTimeRef := 0 \<rparr>)"
  by (simp add: stopAllAudio_def forEach_stop)

lemma length_stopped_nodes [simp]: "length (stopped_nodes xs ns) = length ns"
  by (induction xs arbitrary: ns) simp_all

lemma stopped_nodes_fields:
  "j < length ns \<Longrightarrow> buffer (stopped_nodes xs ns ! j) = buffer (ns ! j) \<and>
     startTime (stopped_nodes xs ns ! j) = startTime (ns ! j)"
  by (induction xs arbitrary: ns) (simp_all add: nth_list_update)

lemma stopped_nodes_not_scheduled_mono:
  "j < length ns \<Longrightarrow> playback (ns ! j) \<noteq> Scheduled \<Longrightarrow>
     playback (stopped_nodes xs ns ! j) \<noteq> Scheduled"
  by (induction xs arbitrary: ns) (simp_all add: nth_list_update)

lemma stopped_nodes_stops:
  "i \<in> set xs \<Longrightarrow> i < length ns \<Longrightarrow> playback (stopped_nodes xs ns ! i) \<noteq> Scheduled"
proof (induction xs arbitrary: ns)
  case Nil
  then show ?case by simp
next
  case (Cons x xs)
  show ?case
  proof (cases "i = x")
    case True
    let ?ns = "if x < length ns \<and> playback (ns ! x) \<noteq> Finished
               then ns[x := (ns ! x)\<lparr> playback := Stopped \<rparr>] else ns"
    have "x < length ?ns" using Cons.prems True by simp
    moreover have "playback (?ns ! x) \<noteq> Scheduled" using Cons.prems True by simp
    ultimately have "playback (stopped_nodes xs ?ns ! x) \<noteq> Scheduled"
      by (rule stopped_nodes_not_scheduled_mono)
    then show ?thesis using True by simp
  next
    case False
    then have "i \<in> set xs" using Cons.prems by simp
    then show ?thesis using Cons.IH Cons.prems by simp
  qed
qed

text \<open>
  C3. \<open>stopAllAudio\<close> always completes, whatever the state: an error thrown by
  stopping a source that has already finished is swallowed. It leaves the Set of
  active sources empty and the cursor at 0, also when the Set was empty before,
  and a second call right after the first changes nothing.
\<close>

theorem stopAllAudio_clears:
  "\<exists>s'. stopAllAudio s = Done s' \<and> audioSourcesRef s' = [] \<and> nextStartTimeRef s' = 0 \<and>
        stopAllAudio s' = Done s'"
  by (simp add: stopAllAudio_eq)

text \<open>
  An instance: the Set holds a source still scheduled, one that has finished (its
  \<open>stop\<close> throws) and is empty afterwards; the same call on the empty state.
\<close>

theorem stopAllAudio_clears_witness:
  "threw (source_stop 1
      (initial\<lparr> nodes := [\<lparr> buffer = chunk 12000, startTime = 0, playback = Scheduled \<rparr>,
                            \<lparr> buffer = chunk 7200, startTime = 1 / 2, playback = Finished \<rparr>],
                audioSourcesRef := [0, 1], nextStartTimeRef := 4 / 5 \<rparr>))
   \<and> stopAllAudio
      (initial\<lparr> nodes := [\<lparr> buffer = chunk 12000, startTime = 0, playback = Scheduled \<rparr>,
                            \<lparr> buffer = chunk 7200, startTime = 1 / 2, playback = Finished \<rparr>],
                audioSourcesRef := [0, 1], nextStartTimeRef := 4 / 5 \<rparr>)
     = Done (initial\<lparr> nodes := [\<lparr> buffer = chunk 12000, startTime = 0, playback = Stopped \<rparr>,
                            \<lparr> buffer = chunk 7200, startTime = 1 / 2, playback = Finished \<rparr>] \<rparr>)
   \<and> stopAllAudio initial = Done initial"
  using stopAllAudio_clears [of initial]
  by (simp add: stopAllAudio_def source_stop_def initial_def)

section \<open>Properties of the PCM codec\<close>

lemma b64_index_char: "i < 64 \<Longrightarrow> b64_index (b64_char i) = Some i"
  by (auto simp: b64_index_def b64_char_def Let_def)

lemma b64_char_not_pad: "i < 64 \<Longrightarrow> b64_char i \<noteq> CHR ''=''"
proof
  assume a: "i < 64" and b: "b64_char i = CHR ''=''"
  have "b64_index (b64_char i) = Some i" using a by (rule b64_index_char)
  moreover have "b64_index (CHR ''='') = None" by (simp add: b64_index_def)
  ultimately show False using b by simp
qed

lemma int16_le_bytes: "int16_le (ucast w) (ucast (drop_bit 8 w)) = (w :: 16 word)"
  unfolding int16_le_def
  by (rule bit_word_eqI) (auto simp: bit_simps)

lemma bytes_roundtrip:
  "bytesToFloatSamples (concat (map le_bytes ws)) = map (\<lambda>w. real_of_int (sint w) / 32768) ws"
  by (induction ws) (simp_all add: le_bytes_def int16_le_bytes)

lemma byte_lt: "unat (a :: byte) < 256"
  using unsigned_less[of a, where 'a = nat] by simp

lemma sextet_bounds:
  fixes a b c :: nat
  assumes "a < 256" "b < 256" "c < 256"
  shows "a div 4 < 64" "a mod 4 * 16 + b div 16 < 64" "b mod 16 * 4 + c div 64 < 64"
    "c mod 64 < 64" "a mod 4 * 16 < 64" "b mod 16 * 4 < 64"
  using assms by auto

lemma first_byte:
  fixes a b :: nat
  assumes "b < 256"
  shows "a div 4 * 4 + (a mod 4 * 16 + b div 16) div 16 = a"
proof -
  have "b div 16 < 16" using assms by simp
  then have "(a mod 4 * 16 + b div 16) div 16 = a mod 4" by simp
  then show ?thesis by simp
qed

lemma second_byte:
  fixes a b c :: nat
  assumes "b < 256" "c < 256"
  shows "(a mod 4 * 16 + b div 16) mod 16 * 16 + (b mod 16 * 4 + c div 64) div 4 = b"
proof -
  have "b div 16 < 16" using assms by simp
  then have 1: "(a mod 4 * 16 + b div 16) mod 16 = b div 16" by simp
  have "c div 64 < 4" using assms by simp
  then have 2: "(b mod 16 * 4 + c div 64) div 4 = b mod 16" by simp
  show ?thesis unfolding 1 2 by simp
qed

lemma third_byte:
  fixes b c :: nat
  assumes "c < 256"
  shows "(b mod 16 * 4 + c div 64) mod 4 * 64 + c mod 64 = c"
proof -
  have "c div 64 < 4" using assms by simp
  then have 1: "(b mod 16 * 4 + c div 64) mod 4 = c div 64" by simp
  show ?thesis unfolding 1 by simp
qed

lemma decode_group3:
  fixes a b c :: byte
  assumes "decodeBlob (encode rest) = Inr rest"
  shows "decodeBlob (encode (a # b # c # rest)) = Inr (a # b # c # rest)"
proof -
  note lt = byte_lt[of a] byte_lt[of b] byte_lt[of c]
  note bd = sextet_bounds[OF lt]
  have i: "b64_index (b64_char (unat a div 4)) = Some (unat a div 4)"
    "b64_index (b64_char (unat a mod 4 * 16 + unat b div 16)) = Some (unat a mod 4 * 16 + unat b div 16)"
    "b64_index (b64_char (unat b mod 16 * 4 + unat c div 64)) = Some (unat b mod 16 * 4 + unat c div 64)"
    "b64_index (b64_char (unat c mod 64)) = Some (unat c mod 64)"
    using bd by (simp_all only: b64_index_char)
  have p: "b64_char (unat b mod 16 * 4 + unat c div 64) \<noteq> CHR ''=''"
    "b64_char (unat c mod 64) \<noteq> CHR ''=''"
    using bd by (simp_all only: b64_char_not_pad not_False_eq_True)
  have b1: "(of_nat (unat a div 4 * 4 + (unat a mod 4 * 16 + unat b div 16) div 16) :: byte) = a"
    by (simp only: first_byte[OF lt(2)] of_nat_unat ucast_id)
  have b2: "(of_nat ((unat a mod 4 * 16 + unat b div 16) mod 16 * 16 +
      (unat b mod 16 * 4 + unat c div 64) div 4) :: byte) = b"
    by (simp only: second_byte[OF lt(2) lt(3)] of_nat_unat ucast_id)
  have b3: "(of_nat ((unat b mod 16 * 4 + unat c div 64) mod 4 * 64 + unat c mod 64) :: byte) = c"
    by (simp only: third_byte[OF lt(3)] of_nat_unat ucast_id)
  show ?thesis
    by (simp only: encode.simps decodeBlob.simps i p b1 b2 b3 assms
        prod.case option.case sum.case simp_thms if_False)
qed


lemma decode_group2:
  fixes a b :: byte
  shows "decodeBlob (encode [a, b]) = Inr [a, b]"
proof -
  note lt = byte_lt[of a] byte_lt[of b] byte_lt[of b]
  note bd = sextet_bounds[OF lt]
  have i: "b64_index (b64_char (unat a div 4)) = Some (unat a div 4)"
    "b64_index (b64_char (unat a mod 4 * 16 + unat b div 16)) = Some (unat a mod 4 * 16 + unat b div 16)"
    "b64_index (b64_char (unat b mod 16 * 4)) = Some (unat b mod 16 * 4)"
    using bd by (simp_all only: b64_index_char)
  have p: "b64_char (unat b mod 16 * 4) \<noteq> CHR ''=''"
    using bd by (simp only: b64_char_not_pad not_False_eq_True)
  have b1: "(of_nat (unat a div 4 * 4 + (unat a mod 4 * 16 + unat b div 16) div 16) :: byte) = a"
    by (simp only: first_byte[OF lt(2)] of_nat_unat ucast_id)
  have "unat b div 16 < 16" using lt(2) by simp
  then have "(unat a mod 4 * 16 + unat b div 16) mod 16 = unat b div 16" by simp
  then have "(unat a mod 4 * 16 + unat b div 16) mod 16 * 16 + unat b mod 16 * 4 div 4 = unat b"
    by simp
  then have b2: "(of_nat ((unat a mod 4 * 16 + unat b div 16) mod 16 * 16 +
      unat b mod 16 * 4 div 4) :: byte) = b"
    by (simp only: of_nat_unat ucast_id)
  show ?thesis
    by (simp only: encode.simps decodeBlob.simps i p b1 b2
        prod.case option.case sum.case simp_thms if_False if_True)
qed

lemma decode_group1:
  fixes a :: byte
  shows "decodeBlob (encode [a]) = Inr [a]"
proof -
  note lt = byte_lt[of a] byte_lt[of a] byte_lt[of a]
  note bd = sextet_bounds[OF lt]
  have i: "b64_index (b64_char (unat a div 4)) = Some (unat a div 4)"
    "b64_index (b64_char (unat a mod 4 * 16)) = Some (unat a mod 4 * 16)"
    using bd by (simp_all only: b64_index_char)
  have "unat a div 4 * 4 + unat a mod 4 * 16 div 16 = unat a" by simp
  then have b1: "(of_nat (unat a div 4 * 4 + unat a mod 4 * 16 div 16) :: byte) = a"
    by (simp only: of_nat_unat ucast_id)
  show ?thesis
    by (simp only: encode.simps decodeBlob.simps i b1
        prod.case option.case sum.case simp_thms if_False if_True)
qed

lemma decodeBlob_encode: "decodeBlob (encode bs) = Inr bs"
proof (induction bs rule: encode.induct)
  case (1 a b c rest)
  then show ?case by (rule decode_group3)
next
  case (2 a b)
  show ?case by (rule decode_group2)
next
  case (3 a)
  show ?case by (rule decode_group1)
next
  case 4
  show ?case by simp
qed

lemma sint_int16: "- 32768 \<le> k \<Longrightarrow> k \<le> 32767 \<Longrightarrow> sint (word_of_int k :: 16 word) = k"
  by (simp add: sint_sbintrunc' signed_take_bit_int_eq_self)

lemma quantize_nonneg:
  fixes x kpos :: real
  assumes "0 \<le> x" "x \<le> 1" "32767 \<le> kpos" "kpos < 32768"
  shows "0 \<le> \<lfloor>x * kpos\<rfloor>" "\<lfloor>x * kpos\<rfloor> \<le> 32767"
    "\<bar>real_of_int \<lfloor>x * kpos\<rfloor> / 32768 - x\<bar> < 1 / 16384"
proof -
  have v0: "0 \<le> x * kpos" using assms by simp
  then show "0 \<le> \<lfloor>x * kpos\<rfloor>" by simp
  have "x * kpos \<le> 1 * kpos" using assms by (intro mult_right_mono) simp_all
  then have v1: "x * kpos < 32768" using assms(4) by linarith
  then have "\<lfloor>x * kpos\<rfloor> < 32768" by (simp add: floor_less_iff)
  then show "\<lfloor>x * kpos\<rfloor> \<le> 32767" by simp
  have up: "real_of_int \<lfloor>x * kpos\<rfloor> \<le> x * kpos" by simp
  have lo: "x * kpos - 1 < real_of_int \<lfloor>x * kpos\<rfloor>" by linarith
  have "x * kpos \<le> x * 32768" using assms by (intro mult_left_mono) simp_all
  with up have "real_of_int \<lfloor>x * kpos\<rfloor> \<le> x * 32768" by linarith
  then have a: "real_of_int \<lfloor>x * kpos\<rfloor> / 32768 \<le> x" by simp
  have "x * 32767 \<le> x * kpos" using assms by (intro mult_left_mono) simp_all
  with lo have "x * 32767 - 1 < real_of_int \<lfloor>x * kpos\<rfloor>" by linarith
  then have "x * 32768 - 2 < real_of_int \<lfloor>x * kpos\<rfloor>" using assms(2) by linarith
  then have b: "x - 1 / 16384 < real_of_int \<lfloor>x * kpos\<rfloor> / 32768" by simp
  show "\<bar>real_of_int \<lfloor>x * kpos\<rfloor> / 32768 - x\<bar> < 1 / 16384" using a b by linarith
qed

lemma quantize_neg:
  fixes x kneg :: real
  assumes "x < 0" "- 1 \<le> x" "32767 \<le> kneg" "kneg \<le> 32768"
  shows "\<lceil>x * kneg\<rceil> \<le> 0" "- 32768 \<le> \<lceil>x * kneg\<rceil>"
    "\<bar>real_of_int \<lceil>x * kneg\<rceil> / 32768 - x\<bar> < 1 / 16384"
proof -
  have "x * kneg \<le> 0" using assms by (simp add: mult_le_0_iff)
  then show "\<lceil>x * kneg\<rceil> \<le> 0" by (simp add: ceiling_le_iff)
  have "(- 1) * kneg \<le> x * kneg" using assms by (intro mult_right_mono) simp_all
  then have v1: "- 32768 \<le> x * kneg" using assms(4) by linarith
  have lo: "x * kneg \<le> real_of_int \<lceil>x * kneg\<rceil>" by simp
  have up: "real_of_int \<lceil>x * kneg\<rceil> < x * kneg + 1" by linarith
  have "real_of_int (- 32768) \<le> real_of_int \<lceil>x * kneg\<rceil>" using v1 lo by linarith
  then show "- 32768 \<le> \<lceil>x * kneg\<rceil>" by (simp only: of_int_le_iff)
  have "x * 32768 \<le> x * kneg" using assms by (intro mult_left_mono_neg) simp_all
  with lo have "x * 32768 \<le> real_of_int \<lceil>x * kneg\<rceil>" by linarith
  then have a: "x \<le> real_of_int \<lceil>x * kneg\<rceil> / 32768" by simp
  have "x * kneg \<le> x * 32767" using assms by (intro mult_left_mono_neg) simp_all
  with up have "real_of_int \<lceil>x * kneg\<rceil> < x * 32767 + 1" by linarith
  then have "real_of_int \<lceil>x * kneg\<rceil> < x * 32768 + 2" using assms(2) by linarith
  then have b: "real_of_int \<lceil>x * kneg\<rceil> / 32768 < x + 1 / 16384" by simp
  show "\<bar>real_of_int \<lceil>x * kneg\<rceil> / 32768 - x\<bar> < 1 / 16384" using a b by linarith
qed

lemma sample_roundtrip:
  fixes x :: real
  assumes "- 1 \<le> x" "x \<le> 1" "32767 \<le> kpos" "kpos < 32768" "32767 \<le> kneg" "kneg \<le> 32768"
  shows "\<bar>real_of_int (sint (to_int16 kneg kpos x)) / 32768 - x\<bar> < 1 / 16384"
proof -
  have c: "clamp x = x" using assms by (simp add: clamp_def)
  show ?thesis
  proof (cases "x < 0")
    case True
    note q = quantize_neg[OF True assms(1) assms(5) assms(6)]
    have "x * kneg < 0" using True assms(5) by (simp add: mult_less_0_iff)
    then have e: "to_int16 kneg kpos x = word_of_int \<lceil>x * kneg\<rceil>"
      using True by (simp add: to_int16_def c js_trunc_def Let_def)
    have s: "sint (word_of_int \<lceil>x * kneg\<rceil> :: 16 word) = \<lceil>x * kneg\<rceil>"
      using q(1) q(2) by (intro sint_int16) simp_all
    show ?thesis unfolding e s by (rule q(3))
  next
    case False
    then have x0: "0 \<le> x" by simp
    note q = quantize_nonneg[OF x0 assms(2) assms(3) assms(4)]
    have "0 \<le> x * kpos" using x0 assms(3) by simp
    then have e: "to_int16 kneg kpos x = word_of_int \<lfloor>x * kpos\<rfloor>"
      using False by (simp add: to_int16_def c js_trunc_def Let_def)
    have s: "sint (word_of_int \<lfloor>x * kpos\<rfloor> :: 16 word) = \<lfloor>x * kpos\<rfloor>"
      using q(1) q(2) by (intro sint_int16) simp_all
    show ?thesis unfolding e s by (rule q(3))
  qed
qed

lemma decodeFrame_encodeFrame:
  "decodeFrame (encodeFrame kneg kpos frame) =
     Inr (map (\<lambda>x. real_of_int (sint (to_int16 kneg kpos x)) / 32768) frame)"
proof -
  have "map (\<lambda>x. le_bytes (to_int16 kneg kpos x)) frame =
      map le_bytes (map (to_int16 kneg kpos) frame)"
    by (simp only: map_map comp_def)
  then have "bytesToFloatSamples (concat (map (\<lambda>x. le_bytes (to_int16 kneg kpos x)) frame)) =
      map (\<lambda>w. real_of_int (sint w) / 32768) (map (to_int16 kneg kpos) frame)"
    by (simp only: bytes_roundtrip)
  also have "\<dots> = map (\<lambda>x. real_of_int (sint (to_int16 kneg kpos x)) / 32768) frame"
    by (simp only: map_map comp_def)
  finally show ?thesis
    by (simp only: decodeFrame_def encodeFrame_def WireBlob.simps decodeBlob_encode sum.case)
qed

text \<open>
  C9. For every valid frame (all samples in [-1, 1]), decoding the encoding of the
  frame succeeds and gives back as many samples, each within 16-bit quantization
  error of the original: less than two steps of the 16-bit grid, \<open>2 / 32768\<close>. This
  holds for every pair of scale factors that are at least 32767 and keep the scaled
  samples inside the 16-bit signed range (below 32768 for the non-negative samples,
  at most 32768 for the negative ones).
\<close>

theorem codec_roundtrip:
  assumes "\<forall>x \<in> set frame. - 1 \<le> x \<and> x \<le> 1"
    and "32767 \<le> kpos" "kpos < 32768" "32767 \<le> kneg" "kneg \<le> 32768"
  shows "\<exists>out. decodeFrame (encodeFrame kneg kpos frame) = Inr out \<and>
           list_all2 (\<lambda>x y. \<bar>y - x\<bar> < 1 / 16384) frame out"
proof -
  have "list_all2 (\<lambda>x y. \<bar>y - x\<bar> < 1 / 16384) frame
          (map (\<lambda>x. real_of_int (sint (to_int16 kneg kpos x)) / 32768) frame)"
    unfolding list_all2_map2
  proof (rule list_all2_same[THEN iffD2], rule ballI)
    fix x assume "x \<in> set frame"
    then have "- 1 \<le> x" "x \<le> 1" using assms(1) by simp_all
    then show "\<bar>real_of_int (sint (to_int16 kneg kpos x)) / 32768 - x\<bar> < 1 / 16384"
      using assms(2-5) by (rule sample_roundtrip)
  qed
  then show ?thesis unfolding decodeFrame_encodeFrame by blast
qed


theorem codec_roundtrip_witness:
  "- 1 \<le> (1 / 2 :: real) \<and> (1 / 2 :: real) \<le> 1 \<and> - 1 \<le> (- 1 :: real) \<and> (- 1 :: real) \<le> 1 \<and>
   wire_data (encodeFrame 32768 32767 [1 / 2, - 1]) = ''/z8AgA=='' \<and>
   decodeFrame (encodeFrame 32768 32767 [1 / 2, - 1]) = Inr [16383 / 32768, - 1] \<and>
   \<bar>16383 / 32768 - 1 / 2 :: real\<bar> < 1 / 16384"
proof -
  have e: "wire_data (encodeFrame 32768 32767 [1 / 2, - 1]) = ''/z8AgA==''"
    by code_simp
  have d: "decodeFrame (encodeFrame 32768 32767 [1 / 2, - 1]) = Inr [16383 / 32768, - 1]"
    by code_simp
  show ?thesis
    using codec_roundtrip [of "[1 / 2, - 1]" 32767 32768] e d by simp
qed

text \<open>
  The bound on the factor for the non-negative samples is needed: with the factor
  32768 the sample 1 is scaled to 32768, which wraps to -32768.
\<close>

lemma full_scale_wraps:
  "decodeFrame (encodeFrame 32768 32768 [1]) = Inr [- 1]"
  by code_simp

lemma duration_nonneg: "0 \<le> duration b"
  by (simp add: duration_def)

lemma nodes_enqueue_all:
  "nodes (enqueue_all cs s) = nodes s @ schedule cs (nextStartTimeRef s)"
  by (induction cs arbitrary: s) (auto simp: enqueue_def Let_def)

lemma nth_enqueue_all:
  "nodes (enqueue_all cs s) ! (length (nodes s) + k) = schedule cs (nextStartTimeRef s) ! k"
  by (simp only: nodes_enqueue_all nth_append_length_plus)

lemma length_schedule: "length (schedule cs c) = length cs"
  by (induction cs c rule: schedule.induct) simp_all

lemma buffer_schedule: "map buffer (schedule cs c) = map snd cs"
  by (induction cs c rule: schedule.induct) simp_all

lemma schedule_start_ge: "k < length cs \<Longrightarrow> c \<le> startTime (schedule cs c ! k)"
proof (induction cs c arbitrary: k rule: schedule.induct)
  case (1 c)
  then show ?case by simp
next
  case (2 t b cs c)
  show ?case
  proof (cases k)
    case 0
    then show ?thesis by simp
  next
    case (Suc j)
    then have "max c t + duration b \<le> startTime (schedule cs (max c t + duration b) ! j)"
      using 2 by simp
    then show ?thesis using Suc duration_nonneg[of b] by simp
  qed
qed

lemma schedule_no_overlap:
  "Suc k < length cs \<Longrightarrow>
     startTime (schedule cs c ! k) + duration (buffer (schedule cs c ! k))
       \<le> startTime (schedule cs c ! Suc k)"
proof (induction cs c arbitrary: k rule: schedule.induct)
  case (1 c)
  then show ?case by simp
next
  case (2 t b cs c)
  show ?case
  proof (cases k)
    case 0
    have "0 < length cs" using 2 0 by simp
    then have "max c t + duration b \<le> startTime (schedule cs (max c t + duration b) ! 0)"
      by (rule schedule_start_ge)
    then show ?thesis using 0 by simp
  next
    case (Suc j)
    then show ?thesis using 2 by simp
  qed
qed

lemma schedule_start:
  "k < length cs \<Longrightarrow>
     startTime (schedule cs (nextStartTimeRef s) ! k) =
       max (nextStartTimeRef (enqueue_all (take k cs) s)) (fst (cs ! k))"
proof (induction cs arbitrary: s k)
  case Nil
  then show ?case by simp
next
  case (Cons x cs)
  obtain t b where x: "x = (t, b)" by (cases x)
  show ?case
  proof (cases k)
    case 0
    then show ?thesis using x by simp
  next
    case (Suc j)
    have "nextStartTimeRef (enqueue t b s) = max (nextStartTimeRef s) t + duration b"
      by (simp add: enqueue_def Let_def)
    then show ?thesis using Cons.IH[of j "enqueue t b s"] Cons.prems Suc x by simp
  qed
qed

text \<open>
  C2. For any sequence of enqueue calls, whatever the clock reads at each call, the
  sources created are as many as the buffers and carry them in enqueue order; each
  start time is the maximum of the cursor and the clock reading at its call; each
  start time is at least the previous start time plus the previous buffer's
  duration, so the start times are non-decreasing and no two buffers overlap.
\<close>

theorem enqueue_all_gapless:
  "length (drop (length (nodes s)) (nodes (enqueue_all cs s))) = length cs \<and>
   map buffer (drop (length (nodes s)) (nodes (enqueue_all cs s))) = map snd cs \<and>
   (\<forall>k < length cs.
      startTime (nodes (enqueue_all cs s) ! (length (nodes s) + k)) =
        max (nextStartTimeRef (enqueue_all (take k cs) s)) (fst (cs ! k))) \<and>
   (\<forall>k. Suc k < length cs \<longrightarrow>
      startTime (nodes (enqueue_all cs s) ! (length (nodes s) + k)) +
        duration (buffer (nodes (enqueue_all cs s) ! (length (nodes s) + k)))
        \<le> startTime (nodes (enqueue_all cs s) ! (length (nodes s) + Suc k)) \<and>
      startTime (nodes (enqueue_all cs s) ! (length (nodes s) + k))
        \<le> startTime (nodes (enqueue_all cs s) ! (length (nodes s) + Suc k)))"
proof (intro conjI allI impI)
  show "length (drop (length (nodes s)) (nodes (enqueue_all cs s))) = length cs"
    by (simp add: nodes_enqueue_all length_schedule)
  show "map buffer (drop (length (nodes s)) (nodes (enqueue_all cs s))) = map snd cs"
    by (simp add: nodes_enqueue_all buffer_schedule)
next
  fix k assume "k < length cs"
  then show "startTime (nodes (enqueue_all cs s) ! (length (nodes s) + k)) =
      max (nextStartTimeRef (enqueue_all (take k cs) s)) (fst (cs ! k))"
    by (simp only: nth_enqueue_all schedule_start)
next
  fix k assume k: "Suc k < length cs"
  have *: "startTime (schedule cs (nextStartTimeRef s) ! k) +
      duration (buffer (schedule cs (nextStartTimeRef s) ! k))
      \<le> startTime (schedule cs (nextStartTimeRef s) ! Suc k)"
    using k by (rule schedule_no_overlap)
  show "startTime (nodes (enqueue_all cs s) ! (length (nodes s) + k)) +
      duration (buffer (nodes (enqueue_all cs s) ! (length (nodes s) + k)))
      \<le> startTime (nodes (enqueue_all cs s) ! (length (nodes s) + Suc k))"
    unfolding nth_enqueue_all by (rule *)
  show "startTime (nodes (enqueue_all cs s) ! (length (nodes s) + k))
      \<le> startTime (nodes (enqueue_all cs s) ! (length (nodes s) + Suc k))"
    unfolding nth_enqueue_all
    using * duration_nonneg[of "buffer (schedule cs (nextStartTimeRef s) ! k)"]
    by linarith
qed

text \<open>
  An instance: three chunks of 0.5 s, 0.3 s and 0.2 s at 24 kHz, the first enqueued
  when the clock reads 1, the others while the first plays (at 1.1 and 1.2). They
  start at 1, 1.5 and 1.8, and the cursor ends at 2.
\<close>

theorem enqueue_all_gapless_witness:
  "map startTime (nodes (enqueue_all three_chunks initial)) = [1, 3 / 2, 9 / 5] \<and>
   map buffer (nodes (enqueue_all three_chunks initial)) = [chunk 12000, chunk 7200, chunk 4800] \<and>
   nextStartTimeRef (enqueue_all three_chunks initial) = 2 \<and>
   audioSourcesRef (enqueue_all three_chunks initial) = [0, 1, 2]"
  using enqueue_all_gapless [of initial three_chunks]
  by (simp add: example_defs handler_defs)

section \<open>Properties of the inbound-message handler\<close>

lemma interruption_eq:
  "interruption m s =
     Done (if (case serverContent m of None \<Rightarrow> False | Some c \<Rightarrow> interrupted c)
           then s\<lparr> nodes := stopped_nodes (audioSourcesRef s) (nodes s),
                   audioSourcesRef := [], nextStartTimeRef := 0 \<rparr>
           else s)"
  by (simp add: interruption_def stopAllAudio_eq)

lemma audio_output_text:
  "messages (final (audio_output dec t m s)) = messages s \<and>
   currentInput (final (audio_output dec t m s)) = currentInput s \<and>
   currentOutput (final (audio_output dec t m s)) = currentOutput s"
  by (simp add: audio_output_def enqueue_def Let_def split: sum.splits option.splits)

lemma handleMessage_text:
  "messages (final (handleMessage dec env m s)) =
     messages (turn_complete (env_date env) m (transcriptions m s)) \<and>
   currentInput (final (handleMessage dec env m s)) =
     currentInput (turn_complete (env_date env) m (transcriptions m s)) \<and>
   currentOutput (final (handleMessage dec env m s)) =
     currentOutput (turn_complete (env_date env) m (transcriptions m s))"
  by (simp add: handleMessage_def interruption_eq audio_output_text)

lemma slice_last_snoc: "slice_last (Suc n) (xs @ [x]) = slice_last n xs @ [x]"
  by (simp add: slice_last_def)

lemma slice_last_drop: "\<exists>k. slice_last n xs = drop k xs"
  by (auto simp: slice_last_def)

lemma trim_blank: "trim t = [] \<longleftrightarrow> list_all is_white_space t"
  by (simp add: trim_Nil_iff list_all_iff)

lemma flush_exact:
  assumes "serverContent m = Some c" and "turnComplete c"
  shows "messages (final (handleMessage dec env m s)) =
           addMessage Agent (currentOutput (transcriptions m s)) (env_date env)
             (addMessage User (currentInput (transcriptions m s)) (env_date env) (messages s))"
    and "currentInput (final (handleMessage dec env m s)) = []"
    and "currentOutput (final (handleMessage dec env m s)) = []"
proof -
  have ms: "messages (transcriptions m s) = messages s"
    by (simp add: transcriptions_def Let_def split: option.splits)
  have e: "addMessage r [] d prev = prev" for r d prev
    by (simp add: addMessage_def trim_def)
  show "messages (final (handleMessage dec env m s)) =
           addMessage Agent (currentOutput (transcriptions m s)) (env_date env)
             (addMessage User (currentInput (transcriptions m s)) (env_date env) (messages s))"
    using assms by (simp add: handleMessage_text turn_complete_def Let_def ms e)
  show "currentInput (final (handleMessage dec env m s)) = []"
    using assms by (simp add: handleMessage_text turn_complete_def Let_def)
  show "currentOutput (final (handleMessage dec env m s)) = []"
    using assms by (simp add: handleMessage_text turn_complete_def Let_def)
qed

lemma last_addMessage:
  "trim t \<noteq> [] \<Longrightarrow>
     last (addMessage r t d prev) = \<lparr> msg_role = r, msg_text = t, timestamp = d \<rparr>"
  by (simp add: addMessage_def)

lemma last_kept_addMessage:
  assumes "prev \<noteq> []"
  shows "last prev \<in> set (addMessage r t d prev)"
proof -
  have lt: "length prev - 10 < length prev" using assms by (cases prev) simp_all
  then have "last (slice_last 10 prev) = last prev"
    by (simp add: slice_last_def last_drop)
  moreover have "slice_last 10 prev \<noteq> []" using lt by (simp add: slice_last_def)
  ultimately have "last prev \<in> set (slice_last 10 prev)" by (metis last_in_set)
  then show ?thesis using assms by (simp add: addMessage_def)
qed


text \<open>
  C6, as amended. On a turn-complete signal every pending fragment that holds a
  character other than white space is flushed to the end of the transcript log as
  exactly one entry tagged with its role, the user's before the agent's; a fragment
  that is empty or all white space contributes no entry; both fragments are empty
  afterwards. The pending fragments are those after the accumulation of the same
  message. Entries of the log before the flush stay in order, the oldest possibly
  dropped.
\<close>

theorem turn_complete_flush:
  assumes "serverContent m = Some c" and "turnComplete c"
  shows "(\<exists>k. messages (final (handleMessage dec env m s)) =
           drop k (messages s) @
           (if list_all is_white_space (currentInput (transcriptions m s)) then []
            else [\<lparr> msg_role = User, msg_text = currentInput (transcriptions m s),
                    timestamp = env_date env \<rparr>]) @
           (if list_all is_white_space (currentOutput (transcriptions m s)) then []
            else [\<lparr> msg_role = Agent, msg_text = currentOutput (transcriptions m s),
                    timestamp = env_date env \<rparr>])) \<and>
         currentInput (final (handleMessage dec env m s)) = [] \<and>
         currentOutput (final (handleMessage dec env m s)) = []"
proof (intro conjI)
  let ?s0 = "transcriptions m s"
  let ?u = "\<lparr> msg_role = User, msg_text = currentInput ?s0, timestamp = env_date env \<rparr>"
  let ?a = "\<lparr> msg_role = Agent, msg_text = currentOutput ?s0, timestamp = env_date env \<rparr>"
  obtain k1 where k1: "slice_last 10 (messages s) = drop k1 (messages s)"
    using slice_last_drop by blast
  have ten: "(10 :: nat) = Suc 9" by simp
  have snoc: "slice_last 10 (slice_last 10 (messages s) @ [?u]) = drop k2' (messages s) @ [?u]"
    if "slice_last 9 (slice_last 10 (messages s)) = drop k2' (messages s)" for k2'
    using that by (simp only: ten slice_last_snoc)
  obtain k3 where k3: "slice_last 9 (slice_last 10 (messages s)) = drop k3 (messages s)"
    by (metis slice_last_drop k1 drop_drop)
  show "\<exists>k. messages (final (handleMessage dec env m s)) =
           drop k (messages s) @
           (if list_all is_white_space (currentInput ?s0) then [] else [?u]) @
           (if list_all is_white_space (currentOutput ?s0) then [] else [?a])"
  proof (cases "list_all is_white_space (currentInput ?s0)")
    case inb: True
    show ?thesis
    proof (cases "list_all is_white_space (currentOutput ?s0)")
      case True
      have "messages (final (handleMessage dec env m s)) = drop 0 (messages s)"
        using inb True
        by (simp add: flush_exact(1)[OF assms] addMessage_def trim_blank)
      then show ?thesis using inb True by (intro exI[of _ 0]) simp
    next
      case False
      have "messages (final (handleMessage dec env m s)) = drop k1 (messages s) @ [?a]"
        using inb False
        by (simp add: flush_exact(1)[OF assms] addMessage_def trim_blank k1)
      then show ?thesis using inb False by (intro exI[of _ k1]) simp
    qed
  next
    case inb: False
    show ?thesis
    proof (cases "list_all is_white_space (currentOutput ?s0)")
      case True
      have "messages (final (handleMessage dec env m s)) = drop k1 (messages s) @ [?u]"
        using inb True
        by (simp add: flush_exact(1)[OF assms] addMessage_def trim_blank k1)
      then show ?thesis using inb True by (intro exI[of _ k1]) simp
    next
      case False
      have "messages (final (handleMessage dec env m s)) =
          slice_last 10 (slice_last 10 (messages s) @ [?u]) @ [?a]"
        using inb False
        by (simp add: flush_exact(1)[OF assms] addMessage_def trim_blank)
      then have "messages (final (handleMessage dec env m s)) = drop k3 (messages s) @ [?u] @ [?a]"
        using snoc[OF k3] by simp
      then show ?thesis using inb False by (intro exI[of _ k3]) simp
    qed
  qed
  show "currentInput (final (handleMessage dec env m s)) = []"
    by (rule flush_exact(2)[OF assms])
  show "currentOutput (final (handleMessage dec env m s)) = []"
    by (rule flush_exact(3)[OF assms])
qed

text \<open>
  The instance of the specification: with the pending fragments \<open>hello\<close> followed by
  a space (user) and the empty string (agent), the flush appends exactly one user
  entry and no agent entry, and both fragments are empty afterwards.
\<close>

theorem turn_complete_flush_witness:
  "messages (final (handleMessage decode_fails \<lparr> env_date = 7, env_currentTime = 0 \<rparr>
       turn_complete_message (initial\<lparr> currentInput := ''hello '' \<rparr>)))
     = [\<lparr> msg_role = User, msg_text = ''hello '', timestamp = 7 \<rparr>] \<and>
   currentInput (final (handleMessage decode_fails \<lparr> env_date = 7, env_currentTime = 0 \<rparr>
       turn_complete_message (initial\<lparr> currentInput := ''hello '' \<rparr>))) = [] \<and>
   currentOutput (final (handleMessage decode_fails \<lparr> env_date = 7, env_currentTime = 0 \<rparr>
       turn_complete_message (initial\<lparr> currentInput := ''hello '' \<rparr>))) = []"
  using turn_complete_flush [of turn_complete_message "no_content\<lparr> turnComplete := True \<rparr>"
      decode_fails "\<lparr> env_date = 7, env_currentTime = 0 \<rparr>"
      "initial\<lparr> currentInput := ''hello '' \<rparr>"]
  by (simp add: example_defs handler_defs)

text \<open>
  The claim as stated fails on a pending fragment that is not empty but all white
  space: \<open>addMessage\<close> returns early on it (\<open>!text.trim()\<close>), so a pending user
  fragment of one space is flushed to no entry.
\<close>

theorem turn_complete_flush_counterexample:
  "currentInput (initial\<lparr> currentInput := '' '' \<rparr>) \<noteq> [] \<and>
   messages (final (handleMessage decode_fails \<lparr> env_date = 7, env_currentTime = 0 \<rparr>
       turn_complete_message (initial\<lparr> currentInput := '' '' \<rparr>))) = [] \<and>
   currentInput (final (handleMessage decode_fails \<lparr> env_date = 7, env_currentTime = 0 \<rparr>
       turn_complete_message (initial\<lparr> currentInput := '' '' \<rparr>))) = []"
  by (simp add: example_defs handler_defs)


lemma text_phases_audio:
  "nodes (turn_complete d m (transcriptions m s)) = nodes s \<and>
   audioSourcesRef (turn_complete d m (transcriptions m s)) = audioSourcesRef s \<and>
   nextStartTimeRef (turn_complete d m (transcriptions m s)) = nextStartTimeRef s \<and>
   audioContextsRef (turn_complete d m (transcriptions m s)) = audioContextsRef s"
  by (simp add: turn_complete_def transcriptions_def Let_def split: option.splits)

lemma audio_output_final:
  "final (audio_output dec t m s) = s \<or>
   (\<exists>a b. audioData m = Inr (Some a) \<and> a \<noteq> [] \<and> audioContextsRef s \<noteq> None \<and>
      dec a = Inr b \<and> audio_output dec t m s = Done (enqueue t b s))"
  by (auto simp: audio_output_def split: sum.splits option.splits if_splits)

lemma handleMessage_interrupted:
  assumes "serverContent m = Some c" and "interrupted c"
  shows "handleMessage dec env m s =
     audio_output dec (env_currentTime env) m
       ((turn_complete (env_date env) m (transcriptions m s))
          \<lparr> nodes := stopped_nodes (audioSourcesRef s) (nodes s),
            audioSourcesRef := [], nextStartTimeRef := 0 \<rparr>)"
  using assms by (simp add: handleMessage_def interruption_eq text_phases_audio)

lemma enqueue_after_stop:
  assumes "audioSourcesRef s1 = []" and "nextStartTimeRef s1 = 0"
  shows "audioSourcesRef (enqueue t b s1) = [length (nodes s1)]"
    and "nextStartTimeRef (enqueue t b s1) = max 0 t + duration b"
    and "nodes (enqueue t b s1) =
           nodes s1 @ [\<lparr> buffer = b, startTime = max 0 t, playback = Scheduled \<rparr>]"
  using assms by (simp_all add: enqueue_def Let_def set_add_def)

lemma interrupted_final:
  fixes dec env m s
  assumes "serverContent m = Some c" and "interrupted c"
  defines "s' \<equiv> final (handleMessage dec env m s)"
  shows "length (nodes s) \<le> length (nodes s')"
    and "i < length (nodes s) \<Longrightarrow> nodes s' ! i = stopped_nodes (audioSourcesRef s) (nodes s) ! i"
    and "(audioSourcesRef s' = [] \<and> nextStartTimeRef s' = 0) \<or>
         (\<exists>a b. audioData m = Inr (Some a) \<and> a \<noteq> [] \<and> audioContextsRef s \<noteq> None \<and>
            dec a = Inr b \<and> handleMessage dec env m s = Done s' \<and>
            audioSourcesRef s' = [length (nodes s)] \<and>
            length (nodes s') = Suc (length (nodes s)) \<and>
            nodes s' ! length (nodes s) =
              \<lparr> buffer = b, startTime = max 0 (env_currentTime env), playback = Scheduled \<rparr> \<and>
            nextStartTimeRef s' = max 0 (env_currentTime env) + duration b)"
proof -
  let ?s1 = "(turn_complete (env_date env) m (transcriptions m s))
          \<lparr> nodes := stopped_nodes (audioSourcesRef s) (nodes s),
            audioSourcesRef := [], nextStartTimeRef := 0 \<rparr>"
  have hm: "handleMessage dec env m s = audio_output dec (env_currentTime env) m ?s1"
    using assms(1,2) by (rule handleMessage_interrupted)
  have s1: "audioSourcesRef ?s1 = []" "nextStartTimeRef ?s1 = 0"
    "nodes ?s1 = stopped_nodes (audioSourcesRef s) (nodes s)"
    "audioContextsRef ?s1 = audioContextsRef s"
    by (simp_all add: text_phases_audio)
  consider (same) "s' = ?s1"
    | (enq) a b where "audioData m = Inr (Some a)" "a \<noteq> []" "audioContextsRef ?s1 \<noteq> None"
        "dec a = Inr b" "audio_output dec (env_currentTime env) m ?s1 =
           Done (enqueue (env_currentTime env) b ?s1)"
    using audio_output_final[of dec "env_currentTime env" m ?s1] unfolding s'_def hm by blast
  then have "length (nodes s) \<le> length (nodes s') \<and>
      (i < length (nodes s) \<longrightarrow> nodes s' ! i = stopped_nodes (audioSourcesRef s) (nodes s) ! i) \<and>
      ((audioSourcesRef s' = [] \<and> nextStartTimeRef s' = 0) \<or>
         (\<exists>a b. audioData m = Inr (Some a) \<and> a \<noteq> [] \<and> audioContextsRef s \<noteq> None \<and>
            dec a = Inr b \<and> handleMessage dec env m s = Done s' \<and>
            audioSourcesRef s' = [length (nodes s)] \<and>
            length (nodes s') = Suc (length (nodes s)) \<and>
            nodes s' ! length (nodes s) =
              \<lparr> buffer = b, startTime = max 0 (env_currentTime env), playback = Scheduled \<rparr> \<and>
            nextStartTimeRef s' = max 0 (env_currentTime env) + duration b))"
  proof cases
    case same
    then show ?thesis using s1 by simp
  next
    case enq
    have e: "s' = enqueue (env_currentTime env) b ?s1"
      unfolding s'_def hm enq(5) by simp
    note q = enqueue_after_stop[OF s1(1) s1(2), of "env_currentTime env" b]
    have n: "nodes s' = stopped_nodes (audioSourcesRef s) (nodes s) @
        [\<lparr> buffer = b, startTime = max 0 (env_currentTime env), playback = Scheduled \<rparr>]"
      unfolding e q(3) s1(3) ..
    have "handleMessage dec env m s = Done s'" unfolding hm enq(5) e ..
    moreover have "audioSourcesRef s' = [length (nodes s)]"
      unfolding e q(1) s1(3) by simp
    moreover have "nextStartTimeRef s' = max 0 (env_currentTime env) + duration b"
      unfolding e q(2) ..
    moreover have "audioContextsRef s \<noteq> None" using enq(3) s1(4) by simp
    ultimately show ?thesis using enq(1,2,4) n by (auto simp: nth_append)
  qed
  then show "length (nodes s) \<le> length (nodes s')"
    and "i < length (nodes s) \<Longrightarrow> nodes s' ! i = stopped_nodes (audioSourcesRef s) (nodes s) ! i"
    and "(audioSourcesRef s' = [] \<and> nextStartTimeRef s' = 0) \<or>
         (\<exists>a b. audioData m = Inr (Some a) \<and> a \<noteq> [] \<and> audioContextsRef s \<noteq> None \<and>
            dec a = Inr b \<and> handleMessage dec env m s = Done s' \<and>
            audioSourcesRef s' = [length (nodes s)] \<and>
            length (nodes s') = Suc (length (nodes s)) \<and>
            nodes s' ! length (nodes s) =
              \<lparr> buffer = b, startTime = max 0 (env_currentTime env), playback = Scheduled \<rparr> \<and>
            nextStartTimeRef s' = max 0 (env_currentTime env) + duration b)"
    by blast+
qed

lemma interrupted_sources_stopped:
  assumes "serverContent m = Some c" and "interrupted c"
    and "i \<in> set (audioSourcesRef s)" and "i < length (nodes s)"
  shows "playback (nodes (final (handleMessage dec env m s)) ! i) \<noteq> Scheduled"
    and "i \<notin> set (audioSourcesRef (final (handleMessage dec env m s)))"
proof -
  note f = interrupted_final[OF assms(1,2), where dec = dec and env = env and s = s]
  show "playback (nodes (final (handleMessage dec env m s)) ! i) \<noteq> Scheduled"
    using f(2)[OF assms(4)] stopped_nodes_stops[OF assms(3,4)] by simp
  show "i \<notin> set (audioSourcesRef (final (handleMessage dec env m s)))"
    using f(3) assms(4) by auto
qed

text \<open>
  C7. Whenever an inbound message carries the interruption signal, the handler
  runs \<open>stopAllAudio\<close>: every source that was in the Set of active sources is no
  longer scheduled after the handler and is no longer in the Set, and the cursor is
  reset to 0. The Set is empty and the cursor is 0 when the handler returns, unless
  the same message also carries an audio chunk: then the Set holds that new chunk
  alone, started at \<open>max 0 currentTime\<close>, and the cursor is the end of that chunk, so
  nothing scheduled before the interruption plays on.
\<close>

theorem interruption_stops_all:
  assumes "serverContent m = Some c" and "interrupted c"
  shows "(\<forall>i \<in> set (audioSourcesRef s). i < length (nodes s) \<longrightarrow>
            playback (nodes (final (handleMessage dec env m s)) ! i) \<noteq> Scheduled \<and>
            i \<notin> set (audioSourcesRef (final (handleMessage dec env m s)))) \<and>
         ((audioSourcesRef (final (handleMessage dec env m s)) = [] \<and>
           nextStartTimeRef (final (handleMessage dec env m s)) = 0) \<or>
          (\<exists>a b. audioData m = Inr (Some a) \<and> dec a = Inr b \<and>
             audioSourcesRef (final (handleMessage dec env m s)) = [length (nodes s)] \<and>
             nodes (final (handleMessage dec env m s)) ! length (nodes s) =
               \<lparr> buffer = b, startTime = max 0 (env_currentTime env), playback = Scheduled \<rparr> \<and>
             nextStartTimeRef (final (handleMessage dec env m s)) =
               max 0 (env_currentTime env) + duration b)) \<and>
         (audioData m = Inr None \<longrightarrow>
            audioSourcesRef (final (handleMessage dec env m s)) = [] \<and>
            nextStartTimeRef (final (handleMessage dec env m s)) = 0)"
proof (intro conjI ballI impI)
  fix i assume i: "i \<in> set (audioSourcesRef s)" "i < length (nodes s)"
  show "playback (nodes (final (handleMessage dec env m s)) ! i) \<noteq> Scheduled"
    using assms i by (rule interrupted_sources_stopped(1))
  show "i \<notin> set (audioSourcesRef (final (handleMessage dec env m s)))"
    using assms i by (rule interrupted_sources_stopped(2))
next
  show "(audioSourcesRef (final (handleMessage dec env m s)) = [] \<and>
           nextStartTimeRef (final (handleMessage dec env m s)) = 0) \<or>
          (\<exists>a b. audioData m = Inr (Some a) \<and> dec a = Inr b \<and>
             audioSourcesRef (final (handleMessage dec env m s)) = [length (nodes s)] \<and>
             nodes (final (handleMessage dec env m s)) ! length (nodes s) =
               \<lparr> buffer = b, startTime = max 0 (env_currentTime env), playback = Scheduled \<rparr> \<and>
             nextStartTimeRef (final (handleMessage dec env m s)) =
               max 0 (env_currentTime env) + duration b)"
    using interrupted_final(3)[OF assms, where dec = dec and env = env and s = s] by blast
next
  assume "audioData m = Inr None"
  then show "audioSourcesRef (final (handleMessage dec env m s)) = []"
    using interrupted_final(3)[OF assms, where dec = dec and env = env and s = s] by auto
next
  assume "audioData m = Inr None"
  then show "nextStartTimeRef (final (handleMessage dec env m s)) = 0"
    using interrupted_final(3)[OF assms, where dec = dec and env = env and s = s] by auto
qed

text \<open>
  The instance of the specification: three chunks of 0.5 s, 0.3 s and 0.2 s are
  scheduled, then a message with the interruption signal arrives; all three sources
  are stopped, the Set is empty and the cursor is 0.
\<close>

theorem interruption_stops_all_witness:
  "map playback (nodes playing) = [Scheduled, Scheduled, Scheduled] \<and>
   audioSourcesRef playing = [0, 1, 2] \<and>
   nextStartTimeRef playing = 2 \<and>
   map playback (nodes (final (handleMessage decode_fails
       \<lparr> env_date = 7, env_currentTime = 6 / 5 \<rparr> interruption_message playing)))
     = [Stopped, Stopped, Stopped] \<and>
   audioSourcesRef (final (handleMessage decode_fails
       \<lparr> env_date = 7, env_currentTime = 6 / 5 \<rparr> interruption_message playing)) = [] \<and>
   nextStartTimeRef (final (handleMessage decode_fails
       \<lparr> env_date = 7, env_currentTime = 6 / 5 \<rparr> interruption_message playing)) = 0"
  using interruption_stops_all [of interruption_message "no_content\<lparr> interrupted := True \<rparr>"
      playing decode_fails "\<lparr> env_date = 7, env_currentTime = 6 / 5 \<rparr>"]
  by (simp add: example_defs handler_defs)

lemma interrupted_with_audio:
  assumes "serverContent m = Some c" and "interrupted c"
    and "audioData m = Inr (Some a)" and "a \<noteq> []" and "audioContextsRef s \<noteq> None"
    and "dec a = Inr b"
  shows "handleMessage dec env m s =
     Done (enqueue (env_currentTime env) b
       ((turn_complete (env_date env) m (transcriptions m s))
          \<lparr> nodes := stopped_nodes (audioSourcesRef s) (nodes s),
            audioSourcesRef := [], nextStartTimeRef := 0 \<rparr>))"
  using assms(3-6)
  by (simp add: handleMessage_interrupted[OF assms(1,2)] audio_output_def text_phases_audio)

lemma transcriptions_fragments:
  assumes "serverContent m = Some c"
  shows "inputTranscription c = Some tr \<Longrightarrow>
           currentInput (transcriptions m s) = js_concat (currentInput s) (transcription_text tr)"
    and "outputTranscription c = Some tr' \<Longrightarrow>
           currentOutput (transcriptions m s) = js_concat (currentOutput s) (transcription_text tr')"
  using assms by (simp_all add: transcriptions_def Let_def split: option.splits)

text \<open>
  C10. One invocation of the handler processes the fields of its message in a fixed
  order: the transcriptions are accumulated, then the turn is flushed, then the
  interruption stops the audio, then the audio chunk is decoded and scheduled. So a
  message with the interruption signal and an audio chunk stops every source
  scheduled before and resets the cursor before the new chunk is scheduled: the
  new chunk starts at \<open>max 0 currentTime\<close>, whatever the cursor was, and is alone in
  the Set. And a message with a transcription fragment and the turn-complete
  signal flushes the pending text with that fragment appended: that entry is in the
  log after the handler (the agent's is the last one) and the fragment is empty.
\<close>

theorem handleMessage_field_order:
  assumes "serverContent m = Some c"
  shows "(interrupted c \<and> audioData m = Inr (Some a) \<and> a \<noteq> [] \<and>
          audioContextsRef s \<noteq> None \<and> dec a = Inr b \<longrightarrow>
            handleMessage dec env m s = Done (final (handleMessage dec env m s)) \<and>
            audioSourcesRef (final (handleMessage dec env m s)) = [length (nodes s)] \<and>
            length (nodes (final (handleMessage dec env m s))) = Suc (length (nodes s)) \<and>
            nodes (final (handleMessage dec env m s)) ! length (nodes s) =
              \<lparr> buffer = b, startTime = max 0 (env_currentTime env), playback = Scheduled \<rparr> \<and>
            nextStartTimeRef (final (handleMessage dec env m s)) =
              max 0 (env_currentTime env) + duration b \<and>
            (\<forall>i \<in> set (audioSourcesRef s). i < length (nodes s) \<longrightarrow>
               playback (nodes (final (handleMessage dec env m s)) ! i) \<noteq> Scheduled)) \<and>
         (turnComplete c \<and> inputTranscription c = Some tr \<and>
          \<not> list_all is_white_space (js_concat (currentInput s) (transcription_text tr)) \<longrightarrow>
            \<lparr> msg_role = User, msg_text = js_concat (currentInput s) (transcription_text tr),
              timestamp = env_date env \<rparr> \<in> set (messages (final (handleMessage dec env m s))) \<and>
            currentInput (final (handleMessage dec env m s)) = []) \<and>
         (turnComplete c \<and> outputTranscription c = Some tr' \<and>
          \<not> list_all is_white_space (js_concat (currentOutput s) (transcription_text tr')) \<longrightarrow>
            last (messages (final (handleMessage dec env m s))) =
              \<lparr> msg_role = Agent, msg_text = js_concat (currentOutput s) (transcription_text tr'),
                timestamp = env_date env \<rparr> \<and>
            currentOutput (final (handleMessage dec env m s)) = [])"
proof (intro conjI impI)
  assume h: "interrupted c \<and> audioData m = Inr (Some a) \<and> a \<noteq> [] \<and>
          audioContextsRef s \<noteq> None \<and> dec a = Inr b"
  let ?s1 = "(turn_complete (env_date env) m (transcriptions m s))
          \<lparr> nodes := stopped_nodes (audioSourcesRef s) (nodes s),
            audioSourcesRef := [], nextStartTimeRef := 0 \<rparr>"
  from h have h1: "interrupted c" and h2: "audioData m = Inr (Some a)" and h3: "a \<noteq> []"
    and h4: "audioContextsRef s \<noteq> None" and h5: "dec a = Inr b" by blast+
  have hm: "handleMessage dec env m s = Done (enqueue (env_currentTime env) b ?s1)"
    using assms h1 h2 h3 h4 h5 by (rule interrupted_with_audio[where dec = dec])
  have s1: "audioSourcesRef ?s1 = []" "nextStartTimeRef ?s1 = 0" by simp_all
  note q = enqueue_after_stop[OF s1, of "env_currentTime env" b]
  show "handleMessage dec env m s = Done (final (handleMessage dec env m s))"
    unfolding hm by simp
  show "audioSourcesRef (final (handleMessage dec env m s)) = [length (nodes s)]"
    unfolding hm using q(1) by simp
  show "length (nodes (final (handleMessage dec env m s))) = Suc (length (nodes s))"
    unfolding hm using q(3) by simp
  show "nodes (final (handleMessage dec env m s)) ! length (nodes s) =
      \<lparr> buffer = b, startTime = max 0 (env_currentTime env), playback = Scheduled \<rparr>"
    unfolding hm using q(3) by (simp add: nth_append)
  show "nextStartTimeRef (final (handleMessage dec env m s)) =
      max 0 (env_currentTime env) + duration b"
    unfolding hm using q(2) by simp
  show "\<forall>i \<in> set (audioSourcesRef s). i < length (nodes s) \<longrightarrow>
      playback (nodes (final (handleMessage dec env m s)) ! i) \<noteq> Scheduled"
    using interrupted_sources_stopped(1)[OF assms h1] by blast
next
  assume h: "turnComplete c \<and> inputTranscription c = Some tr \<and>
      \<not> list_all is_white_space (js_concat (currentInput s) (transcription_text tr))"
  then have tc: "turnComplete c" by blast
  let ?inp = "js_concat (currentInput s) (transcription_text tr)"
  let ?u = "\<lparr> msg_role = User, msg_text = ?inp, timestamp = env_date env \<rparr>"
  have f: "currentInput (transcriptions m s) = ?inp"
    using transcriptions_fragments(1)[OF assms] h by simp
  have nb: "trim ?inp \<noteq> []" using h by (simp add: trim_blank)
  have l: "last (addMessage User ?inp (env_date env) (messages s)) = ?u"
    using nb by (rule last_addMessage)
  have "addMessage User ?inp (env_date env) (messages s) \<noteq> []"
    using nb by (simp add: addMessage_def)
  then have "last (addMessage User ?inp (env_date env) (messages s)) \<in>
      set (addMessage Agent (currentOutput (transcriptions m s)) (env_date env)
        (addMessage User ?inp (env_date env) (messages s)))"
    by (rule last_kept_addMessage)
  then show "?u \<in> set (messages (final (handleMessage dec env m s)))"
    unfolding flush_exact(1)[OF assms tc] f l .
  show "currentInput (final (handleMessage dec env m s)) = []"
    by (rule flush_exact(2)[OF assms tc])
next
  assume h: "turnComplete c \<and> outputTranscription c = Some tr' \<and>
      \<not> list_all is_white_space (js_concat (currentOutput s) (transcription_text tr'))"
  then have tc: "turnComplete c" by blast
  let ?out = "js_concat (currentOutput s) (transcription_text tr')"
  have f: "currentOutput (transcriptions m s) = ?out"
    using transcriptions_fragments(2)[OF assms] h by simp
  have nb: "trim ?out \<noteq> []" using h by (simp add: trim_blank)
  show "last (messages (final (handleMessage dec env m s))) =
      \<lparr> msg_role = Agent, msg_text = ?out, timestamp = env_date env \<rparr>"
    unfolding flush_exact(1)[OF assms tc] f using nb by (rule last_addMessage)
  show "currentOutput (final (handleMessage dec env m s)) = []"
    by (rule flush_exact(3)[OF assms tc])
qed

text \<open>
  An instance: the user fragment \<open>oh\<close> and a space is pending, one source is scheduled
  at 4 and the cursor is 5; a message carries the fragment \<open>hi\<close>, the turn-complete
  signal, the interruption signal and a chunk of 0.5 s, and the clock reads 1. The
  log gets the entry \<open>oh hi\<close>, the old source is stopped, and the new chunk starts at
  1, not at 5.
\<close>

theorem handleMessage_field_order_witness:
  "map msg_text (messages (final (handleMessage decode_half_second
       \<lparr> env_date = 7, env_currentTime = 1 \<rparr> combined_message
       (initial\<lparr> currentInput := ''oh '', audioContextsRef := Some (1, 2),
            nodes := [\<lparr> buffer = chunk 24000, startTime = 4, playback = Scheduled \<rparr>],
            audioSourcesRef := [0], nextStartTimeRef := 5 \<rparr>)))) = [''oh hi''] \<and>
   currentInput (final (handleMessage decode_half_second
       \<lparr> env_date = 7, env_currentTime = 1 \<rparr> combined_message
       (initial\<lparr> currentInput := ''oh '', audioContextsRef := Some (1, 2),
            nodes := [\<lparr> buffer = chunk 24000, startTime = 4, playback = Scheduled \<rparr>],
            audioSourcesRef := [0], nextStartTimeRef := 5 \<rparr>))) = [] \<and>
   map playback (nodes (final (handleMessage decode_half_second
       \<lparr> env_date = 7, env_currentTime = 1 \<rparr> combined_message
       (initial\<lparr> currentInput := ''oh '', audioContextsRef := Some (1, 2),
            nodes := [\<lparr> buffer = chunk 24000, startTime = 4, playback = Scheduled \<rparr>],
            audioSourcesRef := [0], nextStartTimeRef := 5 \<rparr>)))) = [Stopped, Scheduled] \<and>
   map startTime (nodes (final (handleMessage decode_half_second
       \<lparr> env_date = 7, env_currentTime = 1 \<rparr> combined_message
       (initial\<lparr> currentInput := ''oh '', audioContextsRef := Some (1, 2),
            nodes := [\<lparr> buffer = chunk 24000, startTime = 4, playback = Scheduled \<rparr>],
            audioSourcesRef := [0], nextStartTimeRef := 5 \<rparr>)))) = [4, 1] \<and>
   audioSourcesRef (final (handleMessage decode_half_second
       \<lparr> env_date = 7, env_currentTime = 1 \<rparr> combined_message
       (initial\<lparr> currentInput := ''oh '', audioContextsRef := Some (1, 2),
            nodes := [\<lparr> buffer = chunk 24000, startTime = 4, playback = Scheduled \<rparr>],
            audioSourcesRef := [0], nextStartTimeRef := 5 \<rparr>))) = [1] \<and>
   nextStartTimeRef (final (handleMessage decode_half_second
       \<lparr> env_date = 7, env_currentTime = 1 \<rparr> combined_message
       (initial\<lparr> currentInput := ''oh '', audioContextsRef := Some (1, 2),
            nodes := [\<lparr> buffer = chunk 24000, startTime = 4, playback = Scheduled \<rparr>],
            audioSourcesRef := [0], nextStartTimeRef := 5 \<rparr>))) = 3 / 2"
  using handleMessage_field_order [where m = combined_message and c = combined_content
      and s = "initial\<lparr> currentInput := ''oh '', audioContextsRef := Some (1, 2),
            nodes := [\<lparr> buffer = chunk 24000, startTime = 4, playback = Scheduled \<rparr>],
            audioSourcesRef := [0], nextStartTimeRef := 5 \<rparr>"
      and dec = decode_half_second and env = "\<lparr> env_date = 7, env_currentTime = 1 \<rparr>"
      and a = "''AAAA''" and b = "chunk 12000"
      and tr = "\<lparr> transcription_text = Some ''hi'' \<rparr>"
      and tr' = "\<lparr> transcription_text = Some ''hi'' \<rparr>"]
  by (simp add: example_defs handler_defs)

section \<open>Properties of the session\<close>

lemma forEach_tracks:
  "forEach (\<lambda>track st. Done (st\<lparr> released := released st @ [TrackStop track] \<rparr>)) ts s =
     Done (s\<lparr> released := released s @ map TrackStop ts \<rparr>)"
  by (induction ts arbitrary: s) simp_all

lemma stopSession_eq:
  "stopSession s =
     Done (s\<lparr> sessionRef := None, streamRef := None, audioContextsRef := None,
             released := released s @
               (case sessionRef s of None \<Rightarrow> [] | Some h \<Rightarrow> [SessionClose h]) @
               (case streamRef s of None \<Rightarrow> [] | Some stream \<Rightarrow> map TrackStop (tracks stream)) @
               (case audioContextsRef s of None \<Rightarrow> []
                | Some (inputCtx, outputCtx) \<Rightarrow> [ContextClose inputCtx, ContextClose outputCtx]),
             nodes := stopped_nodes (audioSourcesRef s) (nodes s),
             audioSourcesRef := [], nextStartTimeRef := 0, status := IDLE \<rparr>)"
  by (cases "sessionRef s"; cases "streamRef s"; cases "audioContextsRef s")
    (auto simp: stopSession_def session_close_def stop_tracks_def input_close_def
      output_close_def forEach_tracks stopAllAudio_eq)

text \<open>
  C4. Stopping a session is total and idempotent. Whatever the state (also while
  still connecting, with some resources not yet acquired, and also right after a
  first stop), \<open>stopSession\<close> completes without throwing; each resource held is
  released, once, behind its existence check: the session handle is closed, every
  track of the microphone stream is stopped, both audio contexts are closed, and
  \<open>stopAllAudio\<close> runs; nothing is released for a ref that holds nothing. All refs
  are cleared and the status is \<open>IDLE\<close>. A second stop changes nothing more, and
  the close notification does the same as the explicit stop.
\<close>

theorem stopSession_releases:
  "\<exists>s'. stopSession s = Done s' \<and>
        sessionRef s' = None \<and> streamRef s' = None \<and> audioContextsRef s' = None \<and>
        released s' = released s @
          (case sessionRef s of None \<Rightarrow> [] | Some h \<Rightarrow> [SessionClose h]) @
          (case streamRef s of None \<Rightarrow> [] | Some stream \<Rightarrow> map TrackStop (tracks stream)) @
          (case audioContextsRef s of None \<Rightarrow> []
           | Some (inputCtx, outputCtx) \<Rightarrow> [ContextClose inputCtx, ContextClose outputCtx]) \<and>
        audioSourcesRef s' = [] \<and> nextStartTimeRef s' = 0 \<and>
        (\<forall>i \<in> set (audioSourcesRef s). i < length (nodes s) \<longrightarrow>
           playback (nodes s' ! i) \<noteq> Scheduled) \<and>
        status s' = IDLE \<and>
        stopSession s' = Done s' \<and>
        onclose s = Done s'"
proof -
  let ?s' = "final (stopSession s)"
  have d: "stopSession s = Done ?s'" by (simp add: stopSession_eq)
  have "sessionRef ?s' = None" "streamRef ?s' = None" "audioContextsRef ?s' = None"
    "audioSourcesRef ?s' = []" "nextStartTimeRef ?s' = 0" "status ?s' = IDLE"
    by (simp_all add: stopSession_eq)
  moreover have "released ?s' = released s @
          (case sessionRef s of None \<Rightarrow> [] | Some h \<Rightarrow> [SessionClose h]) @
          (case streamRef s of None \<Rightarrow> [] | Some stream \<Rightarrow> map TrackStop (tracks stream)) @
          (case audioContextsRef s of None \<Rightarrow> []
           | Some (inputCtx, outputCtx) \<Rightarrow> [ContextClose inputCtx, ContextClose outputCtx])"
    by (simp add: stopSession_eq)
  moreover have "\<forall>i \<in> set (audioSourcesRef s). i < length (nodes s) \<longrightarrow>
           playback (nodes ?s' ! i) \<noteq> Scheduled"
    by (simp add: stopSession_eq stopped_nodes_stops)
  moreover have "stopSession ?s' = Done ?s'"
    by (simp add: stopSession_eq)
  moreover have "onclose s = Done ?s'"
    by (simp add: onclose_def stopSession_eq)
  ultimately show ?thesis using d by blast
qed

text \<open>
  An instance, stopping while connecting: the microphone stream (two tracks) and the
  two contexts are there, the session handle is not yet. The tracks and the contexts
  are released, nothing is thrown for the missing handle, and a second stop leaves
  the result as it is.
\<close>

theorem stopSession_releases_witness:
  "stopSession (initial\<lparr> status := CONNECTING, streamRef := Some \<lparr> tracks = [5, 6] \<rparr>,
                          audioContextsRef := Some (1, 2) \<rparr>)
     = Done (initial\<lparr> released := [TrackStop 5, TrackStop 6, ContextClose 1, ContextClose 2] \<rparr>) \<and>
   stopSession (initial\<lparr> released := [TrackStop 5, TrackStop 6, ContextClose 1, ContextClose 2] \<rparr>)
     = Done (initial\<lparr> released := [TrackStop 5, TrackStop 6, ContextClose 1, ContextClose 2] \<rparr>) \<and>
   threw (session_close (initial\<lparr> status := CONNECTING, streamRef := Some \<lparr> tracks = [5, 6] \<rparr>,
                          audioContextsRef := Some (1, 2) \<rparr>))"
  using stopSession_releases [of "initial\<lparr> status := CONNECTING,
      streamRef := Some \<lparr> tracks = [5, 6] \<rparr>, audioContextsRef := Some (1, 2) \<rparr>"]
  by (simp add: stopSession_def session_close_def stop_tracks_def input_close_def
      output_close_def stopAllAudio_def initial_def)

section \<open>Properties of the event steps\<close>

lemma cursor_enqueue: "nextStartTimeRef s \<le> nextStartTimeRef (enqueue t b s)"
proof -
  have "nextStartTimeRef (enqueue t b s) = max (nextStartTimeRef s) t + duration b"
    by (simp add: enqueue_def Let_def)
  then show ?thesis using duration_nonneg[of b] by simp
qed

lemma cursor_audio_output:
  "nextStartTimeRef s \<le> nextStartTimeRef (final (audio_output dec t m s))"
  using audio_output_final[of dec t m s] cursor_enqueue[of s t] by auto

lemma cursor_handleMessage:
  assumes "\<not> (case serverContent m of None \<Rightarrow> False | Some c \<Rightarrow> interrupted c)"
  shows "nextStartTimeRef s \<le> nextStartTimeRef (final (handleMessage dec env m s))"
proof -
  let ?s0 = "turn_complete (env_date env) m (transcriptions m s)"
  have "handleMessage dec env m s = audio_output dec (env_currentTime env) m ?s0"
    using assms by (simp add: handleMessage_def interruption_eq)
  moreover have "nextStartTimeRef ?s0 = nextStartTimeRef s"
    by (simp add: text_phases_audio)
  ultimately show ?thesis
    using cursor_audio_output[of ?s0 dec "env_currentTime env" m] by simp
qed

lemma cursor_step:
  assumes "\<not> invokes_stopAll e"
  shows "nextStartTimeRef s \<le> nextStartTimeRef (final (step dec e s))"
proof (cases e)
  case (OnMessage env m)
  then show ?thesis using assms cursor_handleMessage[of m s dec env] by simp
qed (use assms in \<open>simp_all add: startSession_begin_def startSession_stream_def
      startSession_session_def startSession_catch_def onopen_def onerror_def
      source_finished_def onended_def\<close>)

lemma stop_step:
  assumes "invokes_stopAll e"
  shows "(\<forall>i \<in> set (audioSourcesRef s). i < length (nodes s) \<longrightarrow>
            playback (nodes (final (step dec e s)) ! i) \<noteq> Scheduled \<and>
            i \<notin> set (audioSourcesRef (final (step dec e s)))) \<and>
         ((audioSourcesRef (final (step dec e s)) = [] \<and>
           nextStartTimeRef (final (step dec e s)) = 0) \<or>
          (\<exists>env m a b. e = OnMessage env m \<and> audioData m = Inr (Some a) \<and> dec a = Inr b \<and>
             audioSourcesRef (final (step dec e s)) = [length (nodes s)] \<and>
             nextStartTimeRef (final (step dec e s)) =
               max 0 (env_currentTime env) + duration b))"
proof (cases e)
  case (OnMessage env m)
  then obtain c where c: "serverContent m = Some c" "interrupted c"
    using assms by (auto split: option.splits)
  have "(audioSourcesRef (final (handleMessage dec env m s)) = [] \<and>
           nextStartTimeRef (final (handleMessage dec env m s)) = 0) \<or>
        (\<exists>a b. audioData m = Inr (Some a) \<and> dec a = Inr b \<and>
             audioSourcesRef (final (handleMessage dec env m s)) = [length (nodes s)] \<and>
             nextStartTimeRef (final (handleMessage dec env m s)) =
               max 0 (env_currentTime env) + duration b)"
    using interrupted_final(3)[OF c, where dec = dec and env = env and s = s] by blast
  then show ?thesis
    using OnMessage interrupted_sources_stopped[OF c, where dec = dec and env = env and s = s]
    by auto
next
  case OnClose
  then show ?thesis by (simp add: onclose_def stopSession_eq stopped_nodes_stops)
next
  case EndCallClicked
  then show ?thesis by (simp add: stopSession_eq stopped_nodes_stops)
qed (use assms in simp_all)

text \<open>
  C5. The playback cursor never decreases in a step that does not run
  \<open>stopAllAudio\<close>, whatever the event (a message without interruption, an audio
  chunk scheduled, a source ending, a continuation of the start, a callback). A step
  that does run it (a message with the interruption signal, the explicit stop, the
  close notification) sets the cursor to 0 together with stopping every source of
  the Set and clearing the Set; the cursor then is 0, or, when the interrupting
  message carries a chunk, the end of that chunk, scheduled from 0.
\<close>

theorem cursor_monotone:
  "(\<not> invokes_stopAll e \<longrightarrow>
      nextStartTimeRef s \<le> nextStartTimeRef (final (step dec e s))) \<and>
   (invokes_stopAll e \<longrightarrow>
      (\<forall>i \<in> set (audioSourcesRef s). i < length (nodes s) \<longrightarrow>
         playback (nodes (final (step dec e s)) ! i) \<noteq> Scheduled \<and>
         i \<notin> set (audioSourcesRef (final (step dec e s)))) \<and>
      ((audioSourcesRef (final (step dec e s)) = [] \<and>
        nextStartTimeRef (final (step dec e s)) = 0) \<or>
       (\<exists>env m a b. e = OnMessage env m \<and> audioData m = Inr (Some a) \<and> dec a = Inr b \<and>
          audioSourcesRef (final (step dec e s)) = [length (nodes s)] \<and>
          nextStartTimeRef (final (step dec e s)) =
            max 0 (env_currentTime env) + duration b)))"
proof (intro conjI impI)
  assume "\<not> invokes_stopAll e"
  then show "nextStartTimeRef s \<le> nextStartTimeRef (final (step dec e s))"
    by (rule cursor_step)
next
  assume a: "invokes_stopAll e"
  show "\<forall>i \<in> set (audioSourcesRef s). i < length (nodes s) \<longrightarrow>
         playback (nodes (final (step dec e s)) ! i) \<noteq> Scheduled \<and>
         i \<notin> set (audioSourcesRef (final (step dec e s)))"
    using stop_step[OF a, of s dec] by blast
  show "(audioSourcesRef (final (step dec e s)) = [] \<and>
        nextStartTimeRef (final (step dec e s)) = 0) \<or>
       (\<exists>env m a b. e = OnMessage env m \<and> audioData m = Inr (Some a) \<and> dec a = Inr b \<and>
          audioSourcesRef (final (step dec e s)) = [length (nodes s)] \<and>
          nextStartTimeRef (final (step dec e s)) =
            max 0 (env_currentTime env) + duration b)"
    using stop_step[OF a, of s dec] by blast
qed

text \<open>
  An instance: three chunks are scheduled and the cursor is 2. A message with a
  fourth chunk of 0.5 s moves the cursor to 2.5; a message with the interruption
  signal instead stops the three sources, empties the Set and sets the cursor to 0.
\<close>

theorem cursor_monotone_witness:
  "nextStartTimeRef playing = 2 \<and>
   nextStartTimeRef (final (step decode_half_second
      (OnMessage \<lparr> env_date = 7, env_currentTime = 1 \<rparr> audio_message) playing)) = 5 / 2 \<and>
   nextStartTimeRef (final (step decode_half_second
      (OnMessage \<lparr> env_date = 7, env_currentTime = 1 \<rparr> interruption_message) playing)) = 0 \<and>
   audioSourcesRef (final (step decode_half_second
      (OnMessage \<lparr> env_date = 7, env_currentTime = 1 \<rparr> interruption_message) playing)) = [] \<and>
   map playback (nodes (final (step decode_half_second
      (OnMessage \<lparr> env_date = 7, env_currentTime = 1 \<rparr> interruption_message) playing)))
     = [Stopped, Stopped, Stopped]"
  using cursor_monotone [of "OnMessage \<lparr> env_date = 7, env_currentTime = 1 \<rparr> audio_message"
      playing decode_half_second]
    cursor_monotone [of "OnMessage \<lparr> env_date = 7, env_currentTime = 1 \<rparr> interruption_message"
      playing decode_half_second]
  by (simp add: example_defs handler_defs)

text \<open>
  C8, as amended. The status takes the four values \<open>IDLE\<close>, \<open>CONNECTING\<close>,
  \<open>CONNECTED\<close>, \<open>ERROR\<close>. A start request, which the interface offers in \<open>IDLE\<close> and
  in \<open>ERROR\<close> only, sets \<open>CONNECTING\<close>; the open notification sets \<open>CONNECTED\<close>; the
  explicit stop, which the interface offers in \<open>CONNECTED\<close> only, and the close
  notification set \<open>IDLE\<close>; a failure of the start or an error notification of the
  service sets \<open>ERROR\<close>. The notifications are not guarded by the status: each sets
  its status whatever the status was, so a close notification also moves
  \<open>CONNECTING\<close> and \<open>ERROR\<close> to \<open>IDLE\<close>. No other event changes the status.
\<close>

theorem status_transitions:
  "status (final (step dec e s)) =
     (case e of
        StartClicked \<Rightarrow> CONNECTING
      | StartFailed x \<Rightarrow> ERROR
      | OnOpen \<Rightarrow> CONNECTED
      | OnError \<Rightarrow> ERROR
      | OnClose \<Rightarrow> IDLE
      | EndCallClicked \<Rightarrow> IDLE
      | _ \<Rightarrow> status s) \<and>
   (enabled StartClicked s \<longleftrightarrow> status s = IDLE \<or> status s = ERROR) \<and>
   (enabled EndCallClicked s \<longleftrightarrow> status s = CONNECTED) \<and>
   (e \<noteq> StartClicked \<and> e \<noteq> EndCallClicked \<longrightarrow> enabled e s)"
proof (intro conjI impI)
  show "status (final (step dec e s)) =
     (case e of
        StartClicked \<Rightarrow> CONNECTING
      | StartFailed x \<Rightarrow> ERROR
      | OnOpen \<Rightarrow> CONNECTED
      | OnError \<Rightarrow> ERROR
      | OnClose \<Rightarrow> IDLE
      | EndCallClicked \<Rightarrow> IDLE
      | _ \<Rightarrow> status s)"
  proof (cases e)
    case (OnMessage env m)
    have "status (final (audio_output dec t m' s')) = status s'" for t m' s'
      using audio_output_final[of dec t m' s'] by (auto simp: enqueue_def Let_def)
    moreover have "status (turn_complete d m (transcriptions m s)) = status s" for d
      by (simp add: turn_complete_def transcriptions_def Let_def split: option.splits)
    ultimately show ?thesis
      using OnMessage by (simp add: handleMessage_def interruption_eq)
  qed (simp_all add: startSession_begin_def startSession_stream_def
      startSession_session_def startSession_catch_def onopen_def onerror_def
      source_finished_def onended_def onclose_def stopSession_eq)
  show "enabled StartClicked s \<longleftrightarrow> status s = IDLE \<or> status s = ERROR" by simp
  show "enabled EndCallClicked s \<longleftrightarrow> status s = CONNECTED" by simp
  assume "e \<noteq> StartClicked \<and> e \<noteq> EndCallClicked"
  then show "enabled e s" by (cases e) simp_all
qed

text \<open>
  An instance: a session that starts, opens and is ended by the user goes through
  \<open>CONNECTING\<close>, \<open>CONNECTED\<close> and back to \<open>IDLE\<close>; a start that fails ends in
  \<open>ERROR\<close>, and the retry re-enters \<open>CONNECTING\<close>.
\<close>

theorem status_transitions_witness:
  "enabled StartClicked initial \<and>
   status (run decode_fails [StartClicked] initial) = CONNECTING \<and>
   status (run decode_fails [StartClicked, StreamGranted \<lparr> tracks = [5] \<rparr> 1 2, OnOpen]
      initial) = CONNECTED \<and>
   enabled EndCallClicked
     (run decode_fails [StartClicked, StreamGranted \<lparr> tracks = [5] \<rparr> 1 2, OnOpen,
        SessionResolved 3] initial) \<and>
   status (run decode_fails [StartClicked, StreamGranted \<lparr> tracks = [5] \<rparr> 1 2, OnOpen,
      SessionResolved 3, EndCallClicked] initial) = IDLE \<and>
   status (run decode_fails [StartClicked, StartFailed NotAllowedError] initial) = ERROR \<and>
   enabled StartClicked (run decode_fails [StartClicked, StartFailed NotAllowedError] initial) \<and>
   status (run decode_fails [StartClicked, StartFailed NotAllowedError, StartClicked] initial)
     = CONNECTING"
  using status_transitions [of decode_fails StartClicked initial]
    status_transitions [of decode_fails OnOpen
      "run decode_fails [StartClicked, StreamGranted \<lparr> tracks = [5] \<rparr> 1 2] initial"]
  by (simp add: startSession_begin_def startSession_stream_def startSession_session_def
      startSession_catch_def onopen_def stopSession_def session_close_def stop_tracks_def
      input_close_def output_close_def stopAllAudio_def initial_def)

text \<open>
  The claim as stated fails: it lets nothing but a fresh start request leave
  \<open>ERROR\<close>. In a session that is open, an error notification followed by the close
  notification of the same connection leaves the status \<open>ERROR\<close> after the first and
  \<open>IDLE\<close> after the second.
\<close>

theorem status_transitions_counterexample:
  "status (run decode_fails [StartClicked, StreamGranted \<lparr> tracks = [5] \<rparr> 1 2, OnOpen,
      SessionResolved 3, OnError] initial) = ERROR \<and>
   status (run decode_fails [StartClicked, StreamGranted \<lparr> tracks = [5] \<rparr> 1 2, OnOpen,
      SessionResolved 3, OnError, OnClose] initial) = IDLE"
  by (simp add: startSession_begin_def startSession_stream_def startSession_session_def
      onopen_def onerror_def onclose_def stopSession_def session_close_def stop_tracks_def
      input_close_def output_close_def stopAllAudio_def initial_def)

end
